theory Spec2Isabelle
  imports Complex_Main "HOL-Library.AList" "HOL-Library.Sublist"
begin

section \<open>Data model (types.ts)\<close>

text \<open>
  A TypeScript \<open>number\<close> is modelled as a real number, without \<open>NaN\<close> and the
  infinities. The arithmetic of the sale and cart handlers is read exactly. The
  additions of the financial aggregation, whose agreement across two orders of summing
  is at stake, are a parameter: exact, or rounded to binary64 as the program runs them.
  Record fields keep the names of the interfaces; where two interfaces share a field
  name the field is written qualified (\<open>InventoryItem.quantity\<close>, \<open>SaleItem.quantity\<close>).
\<close>

type_synonym number = real

record InventoryItem =
  id :: string
  name :: string
  category :: string
  quantity :: number
  costPrice :: number
  salesPrice :: number
  lowStockThreshold :: number
  lastUpdated :: string

text \<open>
  \<open>discount\<close> is read by FinancialReport.tsx as \<open>i.discount || 0\<close>; it is an optional
  field, absent (\<open>None\<close>) on every line the sales terminal creates.
\<close>

record SaleItem =
  itemId :: string
  name :: string
  quantity :: number
  priceAtSale :: number
  costAtSale :: number
  discount :: "number option"

record SaleRecord =
  id :: string
  items :: "SaleItem list"
  totalAmount :: number
  totalProfit :: number
  timestamp :: string

text \<open>
  Modelled from the spec: the interface \<open>ExpenseRecord\<close>, which the components import
  from \<open>types\<close> and which the given \<open>types\<close> file does not declare. Its fields are
  those of the specification's data model, with the types the components use them at.
\<close>

record ExpenseRecord =
  id :: string
  description :: string
  amount :: number
  category :: string
  date :: string
  recordedAt :: string

text \<open>\<open>Partial<InventoryItem>\<close>: every field may be absent.\<close>

record InventoryItemPartial =
  id :: "string option"
  name :: "string option"
  category :: "string option"
  quantity :: "number option"
  costPrice :: "number option"
  salesPrice :: "number option"
  lowStockThreshold :: "number option"
  lastUpdated :: "string option"

definition noUpdates :: InventoryItemPartial where
  "noUpdates = \<lparr>InventoryItemPartial.id = None, name = None, category = None,
     quantity = None, costPrice = None, salesPrice = None, lowStockThreshold = None,
     lastUpdated = None\<rparr>"

text \<open>Object spread \<open>{ ...item, ...updates }\<close>: a present field of the right operand wins.\<close>

definition spread :: "InventoryItem \<Rightarrow> InventoryItemPartial \<Rightarrow> InventoryItem" where
  "spread item u =
     \<lparr>InventoryItem.id = (case InventoryItemPartial.id u of Some v \<Rightarrow> v | None \<Rightarrow> InventoryItem.id item),
      name = (case InventoryItemPartial.name u of Some v \<Rightarrow> v | None \<Rightarrow> InventoryItem.name item),
      category = (case InventoryItemPartial.category u of Some v \<Rightarrow> v | None \<Rightarrow> InventoryItem.category item),
      quantity = (case InventoryItemPartial.quantity u of Some v \<Rightarrow> v | None \<Rightarrow> InventoryItem.quantity item),
      costPrice = (case InventoryItemPartial.costPrice u of Some v \<Rightarrow> v | None \<Rightarrow> InventoryItem.costPrice item),
      salesPrice = (case InventoryItemPartial.salesPrice u of Some v \<Rightarrow> v | None \<Rightarrow> InventoryItem.salesPrice item),
      lowStockThreshold = (case InventoryItemPartial.lowStockThreshold u of Some v \<Rightarrow> v
                           | None \<Rightarrow> InventoryItem.lowStockThreshold item),
      lastUpdated = (case InventoryItemPartial.lastUpdated u of Some v \<Rightarrow> v | None \<Rightarrow> InventoryItem.lastUpdated item)\<rparr>"

section \<open>Array helpers\<close>

text \<open>\<open>Array.prototype.findIndex\<close>: the first index whose element satisfies the
  predicate; JavaScript's \<open>-1\<close> is \<open>None\<close>.\<close>

fun findIndex :: "('a \<Rightarrow> bool) \<Rightarrow> 'a list \<Rightarrow> nat option" where
  "findIndex P [] = None"
| "findIndex P (x # xs) = (if P x then Some 0 else map_option Suc (findIndex P xs))"

text \<open>\<open>Array.prototype.find\<close>: the first element satisfying the predicate, or \<open>undefined\<close>.\<close>

fun find_first :: "('a \<Rightarrow> bool) \<Rightarrow> 'a list \<Rightarrow> 'a option" where
  "find_first P [] = None"
| "find_first P (x # xs) = (if P x then Some x else find_first P xs)"

text \<open>The elements of an array paired with their positions, as \<open>forEach\<close> and
  \<open>for ... of\<close> visit them.\<close>

definition indexed :: "'a list \<Rightarrow> (nat \<times> 'a) list" where
  "indexed xs = zip [0..<length xs] xs"

section \<open>App.tsx: state, environment and effects\<close>

record AppState =
  inventory :: "InventoryItem list"
  sales :: "SaleRecord list"
  loading :: bool

text \<open>
  What a handler cannot compute is an input of the model. A remote write either
  succeeds, resolves to an object whose \<open>error\<close> field is set, or rejects (throws).
  A \<open>select\<close> resolves to rows, to \<open>data = null\<close>, to an error, or rejects.
\<close>

datatype outcome = Ok | ErrorReturned | Thrown

datatype 'a selected = Rows "'a list" | NullData | SelectError | SelectThrown

text \<open>The awaited writes of one handler call: its first write, and the stock update
  issued for the cart line at a position.\<close>

datatype call_site = FirstWrite | StockUpdate nat

text \<open>The readings of \<open>new Date().toISOString()\<close> of one handler call: the record's
  own stamp, and the ones taken for the cart line at a position by the optimistic
  loop and by the remote loop.\<close>

datatype stamp = RecordStamp | OptimisticStamp nat | RemoteStamp nat

record Env =
  randomUUID :: string
  toISOString :: "stamp \<Rightarrow> string"
  respond :: "call_site \<Rightarrow> outcome"
  selectInventory :: "InventoryItem selected"
  selectSales :: "SaleRecord selected"
  confirm :: bool

datatype remote_write =
    InsertInventory InventoryItem
  | UpdateInventory string InventoryItemPartial
  | DeleteInventory string
  | InsertSale SaleRecord

datatype effect =
    Write remote_write
  | SelectFrom string
  | ConsoleError string
  | Alert string

subsection \<open>fetchData\<close>

definition fetchData :: "Env \<Rightarrow> AppState \<Rightarrow> AppState \<times> effect list" where
  "fetchData env st =
     (let st0 = st\<lparr>loading := True\<rparr>;
          failed = (\<lambda>s es. (s\<lparr>loading := False\<rparr>, es @ [ConsoleError ''Error fetching data:'']))
      in case selectInventory env of
           SelectThrown \<Rightarrow> failed st0 [SelectFrom ''inventory'']
         | SelectError \<Rightarrow> failed st0 [SelectFrom ''inventory'']
         | invData \<Rightarrow>
             (let st1 = (case invData of Rows d \<Rightarrow> st0\<lparr>inventory := d\<rparr> | _ \<Rightarrow> st0)
              in case selectSales env of
                   SelectThrown \<Rightarrow> failed st1 [SelectFrom ''inventory'', SelectFrom ''sales'']
                 | SelectError \<Rightarrow> failed st1 [SelectFrom ''inventory'', SelectFrom ''sales'']
                 | salesData \<Rightarrow>
                     (let st2 = (case salesData of Rows d \<Rightarrow> st1\<lparr>sales := d\<rparr> | _ \<Rightarrow> st1)
                      in (st2\<lparr>loading := False\<rparr>,
                          [SelectFrom ''inventory'', SelectFrom ''sales'']))))"

text \<open>The \<open>catch\<close> block shared by the four write handlers: log, alert, refetch.\<close>

definition recover :: "Env \<Rightarrow> string \<Rightarrow> string \<Rightarrow> AppState \<Rightarrow> effect list \<Rightarrow> AppState \<times> effect list" where
  "recover env logged shown st done =
     (let (st', fetched) = fetchData env st
      in (st', done @ [ConsoleError logged, Alert shown] @ fetched))"

subsection \<open>handleAddItem, handleUpdateItem, handleDeleteItem\<close>

text \<open>The argument of \<open>handleAddItem\<close> is \<open>Omit<InventoryItem, 'id' | 'lastUpdated'>\<close>:
  its \<open>id\<close> and \<open>lastUpdated\<close> are overwritten.\<close>

definition handleAddItem :: "Env \<Rightarrow> AppState \<Rightarrow> InventoryItem \<Rightarrow> AppState \<times> effect list" where
  "handleAddItem env st item =
     (let newItem = item\<lparr>InventoryItem.id := randomUUID env,
                         InventoryItem.lastUpdated := toISOString env RecordStamp\<rparr>;
          st1 = st\<lparr>inventory := inventory st @ [newItem]\<rparr>
      in case respond env FirstWrite of
           Ok \<Rightarrow> (st1, [Write (InsertInventory newItem)])
         | _ \<Rightarrow> recover env ''Error adding item:'' ''Failed to save item to database.'' st1
                  [Write (InsertInventory newItem)])"

definition handleUpdateItem :: "Env \<Rightarrow> AppState \<Rightarrow> string \<Rightarrow> InventoryItemPartial \<Rightarrow> AppState \<times> effect list" where
  "handleUpdateItem env st i updates =
     (let updatedTimestamp = toISOString env RecordStamp;
          finalUpdates = updates\<lparr>InventoryItemPartial.lastUpdated := Some updatedTimestamp\<rparr>;
          st1 = st\<lparr>inventory := map (\<lambda>item. if InventoryItem.id item = i then spread item finalUpdates else item)
                                    (inventory st)\<rparr>
      in case respond env FirstWrite of
           Ok \<Rightarrow> (st1, [Write (UpdateInventory i finalUpdates)])
         | _ \<Rightarrow> recover env ''Error updating item:'' ''Failed to update item in database.'' st1
                  [Write (UpdateInventory i finalUpdates)])"

definition handleDeleteItem :: "Env \<Rightarrow> AppState \<Rightarrow> string \<Rightarrow> AppState \<times> effect list" where
  "handleDeleteItem env st i =
     (if confirm env then
        (let st1 = st\<lparr>inventory := filter (\<lambda>item. InventoryItem.id item \<noteq> i) (inventory st)\<rparr>
         in case respond env FirstWrite of
              Ok \<Rightarrow> (st1, [Write (DeleteInventory i)])
            | _ \<Rightarrow> recover env ''Error deleting item:'' ''Failed to delete item from database.'' st1
                     [Write (DeleteInventory i)])
      else (st, []))"

subsection \<open>handleCompleteSale\<close>

definition saleTotalAmount :: "SaleItem list \<Rightarrow> number" where
  "saleTotalAmount its = foldl (\<lambda>sum item. sum + SaleItem.quantity item * priceAtSale item) 0 its"

definition saleTotalCost :: "SaleItem list \<Rightarrow> number" where
  "saleTotalCost its = foldl (\<lambda>sum item. sum + SaleItem.quantity item * costAtSale item) 0 its"

definition newSale :: "Env \<Rightarrow> SaleItem list \<Rightarrow> SaleRecord" where
  "newSale env its =
     \<lparr>SaleRecord.id = randomUUID env,
      items = its,
      totalAmount = saleTotalAmount its,
      totalProfit = saleTotalAmount its - saleTotalCost its,
      timestamp = toISOString env RecordStamp\<rparr>"

text \<open>One step of the \<open>forEach\<close> of the optimistic update, for the cart line
  \<open>saleItem\<close> at position \<open>k\<close>.\<close>

definition decrement :: "Env \<Rightarrow> InventoryItem list \<Rightarrow> nat \<times> SaleItem \<Rightarrow> InventoryItem list" where
  "decrement env newInventory ks =
     (case ks of (k, saleItem) \<Rightarrow>
        (case findIndex (\<lambda>p. InventoryItem.id p = itemId saleItem) newInventory of
           Some productIndex \<Rightarrow>
             newInventory[productIndex :=
               (newInventory ! productIndex)
                 \<lparr>InventoryItem.quantity :=
                    InventoryItem.quantity (newInventory ! productIndex) - SaleItem.quantity saleItem,
                  InventoryItem.lastUpdated := toISOString env (OptimisticStamp k)\<rparr>]
         | None \<Rightarrow> newInventory))"

definition optimisticInventory :: "Env \<Rightarrow> InventoryItem list \<Rightarrow> SaleItem list \<Rightarrow> InventoryItem list" where
  "optimisticInventory env stock its = foldl (decrement env) stock (indexed its)"

text \<open>The \<open>for ... of\<close> loop of the remote stock updates. It reads the inventory of
  before the sale. The result of an update is awaited but not inspected: only a
  rejected call leaves the loop, through the exception. The flag tells whether the loop
  was left that way.\<close>

fun updateQuantities :: "Env \<Rightarrow> InventoryItem list \<Rightarrow> (nat \<times> SaleItem) list \<Rightarrow> effect list \<times> bool" where
  "updateQuantities env stock [] = ([], False)"
| "updateQuantities env stock ((k, item) # rest) =
     (case find_first (\<lambda>i. InventoryItem.id i = itemId item) stock of
        Some currentItem \<Rightarrow>
          (let newQty = InventoryItem.quantity currentItem - SaleItem.quantity item;
               w = Write (UpdateInventory (itemId item)
                     (noUpdates\<lparr>InventoryItemPartial.quantity := Some newQty,
                                InventoryItemPartial.lastUpdated := Some (toISOString env (RemoteStamp k))\<rparr>))
           in case respond env (StockUpdate k) of
                Thrown \<Rightarrow> ([w], True)
              | _ \<Rightarrow> (let (ws, thrown) = updateQuantities env stock rest in (w # ws, thrown)))
      | None \<Rightarrow> updateQuantities env stock rest)"

definition handleCompleteSale :: "Env \<Rightarrow> AppState \<Rightarrow> SaleItem list \<Rightarrow> AppState \<times> effect list" where
  "handleCompleteSale env st its =
     (let sale = newSale env its;
          newInventory = optimisticInventory env (inventory st) its;
          st1 = st\<lparr>inventory := newInventory, sales := sale # sales st\<rparr>;
          failed = recover env ''Error processing sale:''
                     ''Error saving sale to database. Please check connection.'' st1
      in case respond env FirstWrite of
           Ok \<Rightarrow>
             (case updateQuantities env (inventory st) (indexed its) of
                (ws, False) \<Rightarrow> (st1, Write (InsertSale sale) # ws)
              | (ws, True) \<Rightarrow> failed (Write (InsertSale sale) # ws))
         | _ \<Rightarrow> failed [Write (InsertSale sale)])"

section \<open>components/SalesTerminal.tsx\<close>

record TerminalState =
  cart :: "SaleItem list"
  searchTerm :: string
  selectedProduct :: "InventoryItem option"
  qtyInput :: number
  successMsg :: string

text \<open>What a terminal handler does besides setting state: one of its three alerts
  (two of them quote the stock of the selected product), or the call of the
  \<open>onCompleteSale\<close> property.\<close>

datatype terminal_effect =
    AlertQuantityNotPositive
  | AlertNotEnoughStock number
  | AlertWouldExceedStock number
  | OnCompleteSale "SaleItem list"

definition resetSelection :: "TerminalState \<Rightarrow> TerminalState" where
  "resetSelection st = st\<lparr>selectedProduct := None, qtyInput := 1, searchTerm := []\<rparr>"

definition addToCart :: "TerminalState \<Rightarrow> TerminalState \<times> terminal_effect list" where
  "addToCart st =
     (case selectedProduct st of
        None \<Rightarrow> (st, [])
      | Some product \<Rightarrow>
          if qtyInput st \<le> 0 then (st, [AlertQuantityNotPositive])
          else if qtyInput st > InventoryItem.quantity product
            then (st, [AlertNotEnoughStock (InventoryItem.quantity product)])
          else
            (case findIndex (\<lambda>item. itemId item = InventoryItem.id product) (cart st) of
               Some existingItemIndex \<Rightarrow>
                 if SaleItem.quantity (cart st ! existingItemIndex) + qtyInput st
                      > InventoryItem.quantity product
                 then (st, [AlertWouldExceedStock (InventoryItem.quantity product)])
                 else
                   (let newCart = (cart st)[existingItemIndex :=
                          (cart st ! existingItemIndex)
                            \<lparr>SaleItem.quantity :=
                               SaleItem.quantity (cart st ! existingItemIndex) + qtyInput st\<rparr>]
                    in (resetSelection (st\<lparr>cart := newCart\<rparr>), []))
             | None \<Rightarrow>
                 (let newItem = \<lparr>itemId = InventoryItem.id product,
                                 name = InventoryItem.name product,
                                 quantity = qtyInput st,
                                 priceAtSale = InventoryItem.salesPrice product,
                                 costAtSale = InventoryItem.costPrice product,
                                 discount = None\<rparr>
                  in (resetSelection (st\<lparr>cart := cart st @ [newItem]\<rparr>), []))))"

text \<open>A click on a product card, \<open>setSelectedProduct(item)\<close> with an item of the
  inventory on display, and an entry in the quantity field.\<close>

definition selectProduct :: "TerminalState \<Rightarrow> InventoryItem \<Rightarrow> TerminalState" where
  "selectProduct st item = st\<lparr>selectedProduct := Some item\<rparr>"

definition setQtyInput :: "TerminalState \<Rightarrow> number \<Rightarrow> TerminalState" where
  "setQtyInput st n = st\<lparr>qtyInput := n\<rparr>"

text \<open>\<open>splice(index, 1)\<close> at a position of the rendered cart.\<close>

definition removeFromCart :: "TerminalState \<Rightarrow> nat \<Rightarrow> TerminalState" where
  "removeFromCart st index = st\<lparr>cart := take index (cart st) @ drop (Suc index) (cart st)\<rparr>"

definition handleCheckout :: "TerminalState \<Rightarrow> TerminalState \<times> terminal_effect list" where
  "handleCheckout st =
     (if length (cart st) = 0 then (st, [])
      else (st\<lparr>cart := [], successMsg := ''Sale recorded successfully!''\<rparr>,
            [OnCompleteSale (cart st)]))"

text \<open>
  The terminal inside the app: \<open>onCompleteSale\<close> is \<open>handleCompleteSale\<close>. A click on
  the checkout button runs \<open>handleCheckout\<close> and, through it, the sale on the app's
  state. The terminal's own state changes as \<open>handleCheckout\<close> says; the selected
  product is not among the fields it resets.
\<close>

definition checkout :: "Env \<Rightarrow> AppState \<times> TerminalState \<Rightarrow> AppState \<times> TerminalState" where
  "checkout env page =
     (case page of (app, st) \<Rightarrow>
        (case handleCheckout st of
           (st', [OnCompleteSale its]) \<Rightarrow> (fst (handleCompleteSale env app its), st')
         | (st', _) \<Rightarrow> (app, st')))"

section \<open>InventoryManager: the stock adjustment modal\<close>

text \<open>
  \<open>parseInt\<close> is a parameter of the handler: it gives the number read from the text, or
  \<open>None\<close> for \<open>NaN\<close>.
\<close>

record ManagerState =
  isAdjustModalOpen :: bool
  adjustItem :: "InventoryItem option"
  adjustQty :: string

datatype manager_effect =
    OnUpdate string InventoryItemPartial
  | AlertInvalidQuantity

definition closeAdjustModal :: "ManagerState \<Rightarrow> ManagerState" where
  "closeAdjustModal st = st\<lparr>adjustItem := None, adjustQty := [], isAdjustModalOpen := False\<rparr>"

definition handleStockAdjustment ::
  "(string \<Rightarrow> number option) \<Rightarrow> ManagerState \<Rightarrow> ManagerState \<times> manager_effect list" where
  "handleStockAdjustment parseInt st =
     (case adjustItem st of
        Some item \<Rightarrow>
          (case parseInt (adjustQty st) of
             Some newQty \<Rightarrow>
               if newQty \<ge> 0
               then (closeAdjustModal st,
                     [OnUpdate (InventoryItem.id item)
                        (noUpdates\<lparr>InventoryItemPartial.quantity := Some newQty\<rparr>)])
               else (st, [AlertInvalidQuantity])
           | None \<Rightarrow> (st, [AlertInvalidQuantity]))
      | None \<Rightarrow> (st, []))"

section \<open>Sorting with a comparator\<close>

text \<open>
  \<open>Array.prototype.sort\<close> with a consistent comparator is the stable sort, which
  insertion computes: an element goes in front of the first element it does not compare
  greater than. With a comparator that is not consistent the order is left to the
  engine; a caller that may pass one asks the runtime instead (\<open>engineOrder\<close> below).
\<close>

fun insertBy :: "('a \<Rightarrow> 'a \<Rightarrow> number) \<Rightarrow> 'a \<Rightarrow> 'a list \<Rightarrow> 'a list" where
  "insertBy cmp x [] = [x]"
| "insertBy cmp x (y # ys) = (if cmp x y \<le> 0 then x # y # ys else y # insertBy cmp x ys)"

definition sortBy :: "('a \<Rightarrow> 'a \<Rightarrow> number) \<Rightarrow> 'a list \<Rightarrow> 'a list" where
  "sortBy cmp xs = foldr (insertBy cmp) xs []"

section \<open>components/FinancialReport.tsx\<close>

record ChartPoint =
  date :: string
  revenue :: number
  expense :: number
  grossProfit :: number
  netIncome :: number
  discount :: number

text \<open>\<open>dateStr.split('T')[0]\<close>\<close>

definition getDateKey :: "string \<Rightarrow> string" where
  "getDateKey dateStr = takeWhile (\<lambda>c. c \<noteq> CHR ''T'') dateStr"

definition emptyPoint :: "string \<Rightarrow> ChartPoint" where
  "emptyPoint key = \<lparr>date = key, revenue = 0, expense = 0, grossProfit = 0, netIncome = 0, discount = 0\<rparr>"

text \<open>
  The \<open>Map\<close> is an association list in insertion order. \<open>AList.update\<close> is
  \<open>Map.set\<close>: a present key keeps its place, a new key goes to the end.
  \<open>if (!dataMap.has(key)) dataMap.set(key, ...)\<close>:
\<close>

definition ensureKey :: "string \<Rightarrow> (string \<times> ChartPoint) list \<Rightarrow> (string \<times> ChartPoint) list" where
  "ensureKey key dataMap =
     (if map_of dataMap key = None then AList.update key (emptyPoint key) dataMap else dataMap)"

text \<open>The discounts of a sale, as \<open>metrics\<close> sums them.\<close>

definition saleDiscount :: "SaleRecord \<Rightarrow> number" where
  "saleDiscount sale =
     foldl (\<lambda>sum i. sum + (case SaleItem.discount i of Some d \<Rightarrow> d | None \<Rightarrow> 0)) 0 (items sale)"

subsection \<open>The additions of the aggregation\<close>

text \<open>
  \<open>+=\<close> and \<open>-=\<close> on the fields of a chart point, and the \<open>+\<close> of the reduces, are
  the two operations of an arithmetic. \<open>exact\<close> adds reals. \<open>binary64\<close> rounds each
  result to the nearest double, ties to even, as the program's engine does.
\<close>

record Arithmetic =
  add :: "number \<Rightarrow> number \<Rightarrow> number"
  subtract :: "number \<Rightarrow> number \<Rightarrow> number"

definition exact :: Arithmetic where
  "exact = \<lparr>add = (\<lambda>a b. a + b), subtract = (\<lambda>a b. a - b)\<rparr>"

text \<open>The number of binary digits of a positive integer.\<close>

function bitLength :: "int \<Rightarrow> nat" where
  "bitLength n = (if n \<le> 0 then 0 else Suc (bitLength (n div 2)))"
  by pat_completeness auto
termination
  by (relation "measure nat") auto

declare bitLength.simps [simp del]

text \<open>The exponent \<open>e\<close> of a positive real \<open>a\<close>: \<open>2^e \<le> a < 2^(e+1)\<close>. Below 1 it is read
  off the reciprocal.\<close>

definition exponentOf :: "real \<Rightarrow> int" where
  "exponentOf a =
     (if a \<ge> 1 then int (bitLength \<lfloor>a\<rfloor>) - 1 else - int (bitLength (\<lceil>1 / a\<rceil> - 1)))"

definition pow2 :: "int \<Rightarrow> real" where
  "pow2 q = (if q \<ge> 0 then 2 ^ nat q else 1 / 2 ^ nat (- q))"

definition roundHalfEven :: "real \<Rightarrow> int" where
  "roundHalfEven x =
     (let f = \<lfloor>x\<rfloor>; r = x - of_int f
      in if r < 1 / 2 then f else if r > 1 / 2 then f + 1 else if even f then f else f + 1)"

text \<open>
  Rounding to binary64: 53 significant bits, and no bit below \<open>2^-1074\<close> (the
  subnormal numbers). A result beyond the largest double, which the engine turns into
  an infinity, is not modelled: the rounding keeps it finite.
\<close>

definition roundDouble :: "real \<Rightarrow> real" where
  "roundDouble x =
     (if x = 0 then 0
      else (let a = \<bar>x\<bar>;
                q = max (exponentOf a - 52) (- 1074);
                m = roundHalfEven (a / pow2 q)
            in (if x < 0 then - 1 else 1) * of_int m * pow2 q))"

definition binary64 :: Arithmetic where
  "binary64 = \<lparr>add = (\<lambda>a b. roundDouble (a + b)), subtract = (\<lambda>a b. roundDouble (a - b))\<rparr>"

subsection \<open>chartData\<close>

text \<open>The body of the \<open>forEach\<close> over the filtered sales. \<open>current\<close> is the object held
  by the map, so the assignments to its fields change the map's entry. The map has the
  key when \<open>get\<close> is called; the other branch is never taken.\<close>

definition processSale ::
  "Arithmetic \<Rightarrow> (string \<times> ChartPoint) list \<Rightarrow> SaleRecord \<Rightarrow> (string \<times> ChartPoint) list" where
  "processSale ar dataMap sale =
     (let key = getDateKey (timestamp sale);
          dataMap1 = ensureKey key dataMap
      in case map_of dataMap1 key of
           Some current \<Rightarrow>
             (let saleDiscount =
                    foldl (\<lambda>sum i. add ar sum (case SaleItem.discount i of Some d \<Rightarrow> d | None \<Rightarrow> 0))
                      0 (items sale)
              in AList.update key
                   (current\<lparr>revenue := add ar (revenue current) (totalAmount sale),
                            grossProfit := add ar (grossProfit current) (totalProfit sale),
                            ChartPoint.discount := add ar (ChartPoint.discount current) saleDiscount,
                            netIncome := add ar (netIncome current) (totalProfit sale)\<rparr>)
                   dataMap1)
         | None \<Rightarrow> dataMap1)"

definition processExpense ::
  "Arithmetic \<Rightarrow> (string \<times> ChartPoint) list \<Rightarrow> ExpenseRecord \<Rightarrow> (string \<times> ChartPoint) list" where
  "processExpense ar dataMap e =
     (let key = getDateKey (ExpenseRecord.date e);
          dataMap1 = ensureKey key dataMap
      in case map_of dataMap1 key of
           Some current \<Rightarrow>
             AList.update key
               (current\<lparr>expense := add ar (expense current) (amount e),
                        netIncome := subtract ar (netIncome current) (amount e)\<rparr>)
               dataMap1
         | None \<Rightarrow> dataMap1)"

definition dataMapOf ::
  "Arithmetic \<Rightarrow> SaleRecord list \<Rightarrow> ExpenseRecord list \<Rightarrow> (string \<times> ChartPoint) list" where
  "dataMapOf ar filteredSales filteredExpenses =
     foldl (processExpense ar) (foldl (processSale ar) [] filteredSales) filteredExpenses"

text \<open>\<open>localeCompare\<close>, a consistent comparator, is a parameter.\<close>

definition chartData ::
  "Arithmetic \<Rightarrow> (string \<Rightarrow> string \<Rightarrow> number) \<Rightarrow> SaleRecord list \<Rightarrow> ExpenseRecord list \<Rightarrow> ChartPoint list" where
  "chartData ar localeCompare filteredSales filteredExpenses =
     sortBy (\<lambda>a b. localeCompare (ChartPoint.date a) (ChartPoint.date b))
       (map snd (dataMapOf ar filteredSales filteredExpenses))"

subsection \<open>metrics\<close>

text \<open>The reduce of \<open>metrics\<close> over one field of the filtered records, with the additions
  of an arithmetic.\<close>

definition directTotal :: "Arithmetic \<Rightarrow> ('a \<Rightarrow> number) \<Rightarrow> 'a list \<Rightarrow> number" where
  "directTotal ar f xs = foldl (\<lambda>acc x. add ar acc (f x)) 0 xs"

text \<open>
  A division of reals whose divisor is 0 has no finite result in JavaScript
  (\<open>NaN\<close> or an infinity): \<open>None\<close>.
\<close>

definition divide_number :: "number \<Rightarrow> number \<Rightarrow> number option" where
  "divide_number a b = (if b = 0 then None else Some (a / b))"

text \<open>\<open>metrics\<close>, with exact arithmetic.\<close>

record Metrics =
  totalRevenue :: number
  totalDiscount :: number
  totalGrossProfit :: number
  totalCOGS :: number
  totalExpenses :: number
  netIncome :: number
  grossMargin :: "number option"
  netMargin :: "number option"
  expenseRatio :: "number option"
  inventoryValue :: number

definition metrics :: "SaleRecord list \<Rightarrow> ExpenseRecord list \<Rightarrow> InventoryItem list \<Rightarrow> Metrics" where
  "metrics filteredSales filteredExpenses stock =
     (let revenue = foldl (\<lambda>acc s. acc + totalAmount s) 0 filteredSales;
          discounts = foldl (\<lambda>acc s. acc + saleDiscount s) 0 filteredSales;
          gross = foldl (\<lambda>acc s. acc + totalProfit s) 0 filteredSales;
          cogs = revenue - gross;
          expenses = foldl (\<lambda>acc e. acc + amount e) 0 filteredExpenses;
          net = gross - expenses
      in \<lparr>totalRevenue = revenue,
          totalDiscount = discounts,
          totalGrossProfit = gross,
          totalCOGS = cogs,
          totalExpenses = expenses,
          netIncome = net,
          grossMargin = (if revenue > 0 then map_option (\<lambda>q. q * 100) (divide_number gross revenue) else Some 0),
          netMargin = (if revenue > 0 then map_option (\<lambda>q. q * 100) (divide_number net revenue) else Some 0),
          expenseRatio = (if revenue > 0 then map_option (\<lambda>q. q * 100) (divide_number expenses revenue) else Some 0),
          inventoryValue = foldl (\<lambda>acc i. acc + InventoryItem.costPrice i * InventoryItem.quantity i) 0 stock\<rparr>)"

section \<open>components/ExpensesManager.tsx\<close>

text \<open>
  The library functions the component calls are parameters: \<open>toLowerCase\<close>,
  \<open>new Date(s).getTime()\<close> (\<open>None\<close> for an invalid date, whose time is \<open>NaN\<close>),
  the \<open>ToString\<close> of a number, which \<open>toFixed\<close> falls back to from \<open>10^21\<close> on, and
  \<open>engineOrder\<close>, the order in which the engine's \<open>sort\<close> leaves a list of expenses
  when the comparator returns \<open>NaN\<close> on it, which the language leaves to the engine.
\<close>

record Runtime =
  toLowerCase :: "string \<Rightarrow> string"
  getTime :: "string \<Rightarrow> number option"
  numberToString :: "number \<Rightarrow> string"
  engineOrder :: "ExpenseRecord list \<Rightarrow> ExpenseRecord list"

text \<open>\<open>String.prototype.includes\<close>\<close>

fun includes_str :: "string \<Rightarrow> string \<Rightarrow> bool" where
  "includes_str [] t = (t = [])"
| "includes_str (c # s) t = (prefix t (c # s) \<or> includes_str s t)"

text \<open>\<open>>=\<close> and \<open><=\<close> on two dates: false when either time is \<open>NaN\<close>.\<close>

definition date_ge :: "number option \<Rightarrow> number option \<Rightarrow> bool" where
  "date_ge a b = (case (a, b) of (Some x, Some y) \<Rightarrow> x \<ge> y | _ \<Rightarrow> False)"

definition date_le :: "number option \<Rightarrow> number option \<Rightarrow> bool" where
  "date_le a b = (case (a, b) of (Some x, Some y) \<Rightarrow> x \<le> y | _ \<Rightarrow> False)"

text \<open>The comparator \<open>new Date(b.date).getTime() - new Date(a.date).getTime()\<close>. Its
  result is \<open>NaN\<close> when one of the dates is invalid; it is written 0 here, and the
  comparator is then not consistent.\<close>

definition byDateDescending :: "Runtime \<Rightarrow> ExpenseRecord \<Rightarrow> ExpenseRecord \<Rightarrow> number" where
  "byDateDescending rt a b =
     (case (getTime rt (ExpenseRecord.date b), getTime rt (ExpenseRecord.date a)) of
        (Some tb, Some ta) \<Rightarrow> tb - ta
      | _ \<Rightarrow> 0)"

definition matches :: "Runtime \<Rightarrow> string \<Rightarrow> string \<Rightarrow> string \<Rightarrow> string \<Rightarrow> ExpenseRecord \<Rightarrow> bool" where
  "matches rt search startDate endDate selectedCategory e =
     (let matchesSearch =
            (includes_str (toLowerCase rt (description e)) (toLowerCase rt search) \<or>
             includes_str (toLowerCase rt (ExpenseRecord.category e)) (toLowerCase rt search));
          matchesCategory = (selectedCategory = ''All'' \<or> ExpenseRecord.category e = selectedCategory);
          matchesDate1 = (if startDate \<noteq> []
                          then date_ge (getTime rt (ExpenseRecord.date e)) (getTime rt startDate)
                          else True);
          matchesDate = (if endDate \<noteq> []
                         then matchesDate1 \<and> date_le (getTime rt (ExpenseRecord.date e)) (getTime rt endDate)
                         else matchesDate1)
      in matchesSearch \<and> matchesCategory \<and> matchesDate)"

text \<open>
  \<open>filter(...).sort(...)\<close>. The comparator is consistent on the filtered expenses when
  each of their dates is valid (it is not called on fewer than two of them): then the
  result is the stable sort. Otherwise the order is the engine's.
\<close>

definition filteredExpenses ::
  "Runtime \<Rightarrow> string \<Rightarrow> string \<Rightarrow> string \<Rightarrow> string \<Rightarrow> ExpenseRecord list \<Rightarrow> ExpenseRecord list" where
  "filteredExpenses rt search startDate endDate selectedCategory expenses =
     (let kept = filter (matches rt search startDate endDate selectedCategory) expenses
      in if length kept \<le> 1 \<or> (\<forall>e\<in>set kept. getTime rt (ExpenseRecord.date e) \<noteq> None)
         then sortBy (byDateDescending rt) kept
         else engineOrder rt kept)"









section \<open>Vocabulary of the statements\<close>

text \<open>The remote writes among the effects of a handler, in the order of issue.\<close>

definition writesOf :: "effect list \<Rightarrow> remote_write list" where
  "writesOf es = concat (map (\<lambda>e. case e of Write w \<Rightarrow> [w] | _ \<Rightarrow> []) es)"

text \<open>The stock update that sale completion owes to the cart line at a position: one
  update if an inventory item has the line's \<open>itemId\<close>, none otherwise.\<close>

definition stockUpdateFor :: "Env \<Rightarrow> InventoryItem list \<Rightarrow> nat \<times> SaleItem \<Rightarrow> remote_write list" where
  "stockUpdateFor env stock ks =
     (case ks of (k, item) \<Rightarrow>
        (case find_first (\<lambda>i. InventoryItem.id i = itemId item) stock of
           Some currentItem \<Rightarrow>
             [UpdateInventory (itemId item)
                (noUpdates\<lparr>InventoryItemPartial.quantity :=
                             Some (InventoryItem.quantity currentItem - SaleItem.quantity item),
                           InventoryItemPartial.lastUpdated := Some (toISOString env (RemoteStamp k))\<rparr>)]
         | None \<Rightarrow> []))"

text \<open>The stock updates that sale completion owes to a cart, in cart order.\<close>

definition expectedStockUpdates :: "Env \<Rightarrow> InventoryItem list \<Rightarrow> SaleItem list \<Rightarrow> remote_write list" where
  "expectedStockUpdates env stock its = concat (map (stockUpdateFor env stock) (indexed its))"

text \<open>The quantity that the cart sells of the inventory item at position \<open>j\<close>: the
  sum over the cart lines that \<open>findIndex\<close> resolves to \<open>j\<close>.\<close>

definition soldAt :: "InventoryItem list \<Rightarrow> SaleItem list \<Rightarrow> nat \<Rightarrow> number" where
  "soldAt stock its j =
     (\<Sum>l\<leftarrow>filter (\<lambda>l. findIndex (\<lambda>p. InventoryItem.id p = itemId l) stock = Some j) its.
        SaleItem.quantity l)"

text \<open>A cart with one line per product, none asking for more than the stock of an
  item with its \<open>itemId\<close>.\<close>

definition cartWithinStock :: "InventoryItem list \<Rightarrow> SaleItem list \<Rightarrow> bool" where
  "cartWithinStock stock c =
     (distinct (map itemId c) \<and>
      (\<forall>l\<in>set c. \<forall>p\<in>set stock.
         InventoryItem.id p = itemId l \<longrightarrow> SaleItem.quantity l \<le> InventoryItem.quantity p))"

text \<open>Two inventory items that agree on every field but \<open>quantity\<close> and
  \<open>lastUpdated\<close>.\<close>

definition sameProduct :: "InventoryItem \<Rightarrow> InventoryItem \<Rightarrow> bool" where
  "sameProduct p q =
     (InventoryItem.id p = InventoryItem.id q \<and>
      InventoryItem.name p = InventoryItem.name q \<and>
      InventoryItem.category p = InventoryItem.category q \<and>
      InventoryItem.costPrice p = InventoryItem.costPrice q \<and>
      InventoryItem.salesPrice p = InventoryItem.salesPrice q \<and>
      InventoryItem.lowStockThreshold p = InventoryItem.lowStockThreshold q)"

text \<open>The inventory of the optimistic loop after the cart lines \<open>its\<close>.\<close>

definition tracks :: "InventoryItem list \<Rightarrow> SaleItem list \<Rightarrow> InventoryItem list \<Rightarrow> bool" where
  "tracks stock its new =
     (length new = length stock \<and>
      (\<forall>j<length stock.
         sameProduct (new ! j) (stock ! j) \<and>
         InventoryItem.quantity (new ! j) = InventoryItem.quantity (stock ! j) - soldAt stock its j \<and>
         ((\<forall>l\<in>set its. findIndex (\<lambda>p. InventoryItem.id p = itemId l) stock \<noteq> Some j)
           \<longrightarrow> new ! j = stock ! j)))"

text \<open>The day of a sale and of an expense: the date part of its timestamp or date.\<close>

definition saleKey :: "SaleRecord \<Rightarrow> string" where
  "saleKey s = getDateKey (timestamp s)"

definition expenseKey :: "ExpenseRecord \<Rightarrow> string" where
  "expenseKey e = getDateKey (ExpenseRecord.date e)"

text \<open>The bucket of a calendar day as the specification describes it: the running sums,
  in an arithmetic, over the sales and over the expenses whose date part is the day, in
  the order of the lists.\<close>

definition pointOf :: "Arithmetic \<Rightarrow> string \<Rightarrow> SaleRecord list \<Rightarrow> ExpenseRecord list \<Rightarrow> ChartPoint" where
  "pointOf ar k ss es =
     \<lparr>date = k,
      revenue = directTotal ar totalAmount (filter (\<lambda>s. saleKey s = k) ss),
      expense = directTotal ar amount (filter (\<lambda>e. expenseKey e = k) es),
      grossProfit = directTotal ar totalProfit (filter (\<lambda>s. saleKey s = k) ss),
      netIncome = foldl (\<lambda>acc e. subtract ar acc (amount e))
                    (directTotal ar totalProfit (filter (\<lambda>s. saleKey s = k) ss))
                    (filter (\<lambda>e. expenseKey e = k) es),
      discount = directTotal ar
                   (\<lambda>s. directTotal ar (\<lambda>i. case SaleItem.discount i of Some d \<Rightarrow> d | None \<Rightarrow> 0) (items s))
                   (filter (\<lambda>s. saleKey s = k) ss)\<rparr>"

text \<open>The map of the aggregation after the sales \<open>ss\<close> and the expenses \<open>es\<close>.\<close>

definition charted ::
  "Arithmetic \<Rightarrow> SaleRecord list \<Rightarrow> ExpenseRecord list \<Rightarrow> (string \<times> ChartPoint) list \<Rightarrow> bool" where
  "charted ar ss es m =
     (distinct (map fst m) \<and>
      (\<forall>k. map_of m k =
         (if k \<in> saleKey ` set ss \<union> expenseKey ` set es then Some (pointOf ar k ss es) else None)))"

text \<open>The lines of a text: \<open>split\<close> at a separator character.\<close>

fun splitOn :: "char \<Rightarrow> string \<Rightarrow> string list" where
  "splitOn c [] = [[]]"
| "splitOn c (x # xs) =
     (if x = c then [] # splitOn c xs
      else (case splitOn c xs of w # ws \<Rightarrow> (x # w) # ws | [] \<Rightarrow> [[x]]))"




text \<open>The time of the date of an expense (0 stands in for an invalid date).\<close>

definition timeOf :: "Runtime \<Rightarrow> ExpenseRecord \<Rightarrow> number" where
  "timeOf rt e = (case getTime rt (ExpenseRecord.date e) of Some t \<Rightarrow> t | None \<Rightarrow> 0)"


section \<open>Sample data\<close>

text \<open>An inventory of one product, and cart lines for it and for a product that is gone.\<close>

definition soap :: InventoryItem where
  "soap = \<lparr>InventoryItem.id = ''A'', name = ''Soap'', category = ''Home'', quantity = 5,
            costPrice = 2, salesPrice = 3, lowStockThreshold = 1, lastUpdated = ''t0''\<rparr>"

definition soapLine :: SaleItem where
  "soapLine = \<lparr>itemId = ''A'', name = ''Soap'', quantity = 2, priceAtSale = 3, costAtSale = 2,
                discount = None\<rparr>"

definition strayLine :: SaleItem where
  "strayLine = \<lparr>itemId = ''Z'', name = ''Gone'', quantity = 1, priceAtSale = 7, costAtSale = 4,
                 discount = None\<rparr>"

definition shop :: AppState where
  "shop = \<lparr>inventory = [soap], sales = [], loading = False\<rparr>"

text \<open>A remote store that accepts every write.\<close>

definition calmEnv :: Env where
  "calmEnv = \<lparr>randomUUID = ''u'', toISOString = (\<lambda>_. ''t1''), respond = (\<lambda>_. Ok),
               selectInventory = NullData, selectSales = NullData, confirm = True\<rparr>"

text \<open>A remote store that accepts the first write of a handler and answers every stock
  update of a sale with an error object.\<close>

definition refusingEnv :: Env where
  "refusingEnv = \<lparr>randomUUID = ''u'', toISOString = (\<lambda>_. ''t1''),
                   respond = (\<lambda>c. case c of FirstWrite \<Rightarrow> Ok | StockUpdate k \<Rightarrow> ErrorReturned),
                   selectInventory = NullData, selectSales = NullData, confirm = True\<rparr>"

text \<open>A terminal with two bars of soap in the cart, soap selected and 3 entered.\<close>

definition till :: TerminalState where
  "till = \<lparr>cart = [soapLine], searchTerm = ''so'', selectedProduct = Some soap, qtyInput = 3,
            successMsg = []\<rparr>"

text \<open>A terminal as it opens: nothing in the cart, nothing selected.\<close>

definition counter :: TerminalState where
  "counter = \<lparr>cart = [], searchTerm = [], selectedProduct = None, qtyInput = 1, successMsg = []\<rparr>"

text \<open>Three sales on two days and two expenses.\<close>

definition morningSale :: SaleRecord where
  "morningSale = \<lparr>SaleRecord.id = ''s1'', items = [soapLine], totalAmount = 6, totalProfit = 2,
                   timestamp = ''2024-03-02T09:15:00.000Z''\<rparr>"

definition eveningSale :: SaleRecord where
  "eveningSale = \<lparr>SaleRecord.id = ''s2'', items = [soapLine, soapLine], totalAmount = 12, totalProfit = 4,
                   timestamp = ''2024-03-02T18:40:00.000Z''\<rparr>"

definition earlierSale :: SaleRecord where
  "earlierSale = \<lparr>SaleRecord.id = ''s3'', items = [soapLine], totalAmount = 2, totalProfit = 1,
                   timestamp = ''2024-03-01T11:00:00.000Z''\<rparr>"

definition rent :: ExpenseRecord where
  "rent = \<lparr>ExpenseRecord.id = ''e1'', description = ''Shop rent'', amount = 5, category = ''Rent'',
            date = ''2024-03-01'', recordedAt = ''2024-03-01T08:00:00.000Z''\<rparr>"

definition soapOrder :: ExpenseRecord where
  "soapOrder = \<lparr>ExpenseRecord.id = ''e2'',
                 description = ''Soap '' @ [CHR 0x22] @ ''Lux'' @ [CHR 0x22] @ '', 12 bars'',
                 amount = 2469 / 200, category = ''Supplies'', date = ''2024-03-02'',
                 recordedAt = ''2024-03-02T08:00:00.000Z''\<rparr>"

text \<open>A comparator by code units, which is what \<open>localeCompare\<close> does on date keys
  of digits and hyphens.\<close>

fun byCodeUnit :: "string \<Rightarrow> string \<Rightarrow> number" where
  "byCodeUnit [] [] = 0"
| "byCodeUnit [] (y # ys) = - 1"
| "byCodeUnit (x # xs) [] = 1"
| "byCodeUnit (x # xs) (y # ys) =
     (if (of_char x :: nat) < of_char y then - 1
      else if (of_char y :: nat) < of_char x then 1
      else byCodeUnit xs ys)"

text \<open>Three sales of 0.1, 0.2 and 0.3, the first a day before the others. The amounts
  are the doubles that the literals denote.\<close>

definition tenthSale :: SaleRecord where
  "tenthSale = \<lparr>SaleRecord.id = ''d1'', items = [], totalAmount = 3602879701896397 / 2 ^ 55,
                totalProfit = 0, timestamp = ''2024-03-01T10:00:00.000Z''\<rparr>"

definition fifthSale :: SaleRecord where
  "fifthSale = \<lparr>SaleRecord.id = ''d2'', items = [], totalAmount = 3602879701896397 / 2 ^ 54,
                 totalProfit = 0, timestamp = ''2024-03-02T10:00:00.000Z''\<rparr>"

definition threeTenthsSale :: SaleRecord where
  "threeTenthsSale = \<lparr>SaleRecord.id = ''d3'', items = [], totalAmount = 5404319552844595 / 2 ^ 54,
                  totalProfit = 0, timestamp = ''2024-03-02T16:00:00.000Z''\<rparr>"



definition undated :: ExpenseRecord where
  "undated = \<lparr>ExpenseRecord.id = ''e5'', description = ''Cash'', amount = 1,
               category = ''Other'', date = [], recordedAt = ''2024-03-03T09:00:00.000Z''\<rparr>"

text \<open>A runtime for the samples: lower case of ASCII letters; the times, in milliseconds,
  of the two dates that the samples carry; the \<open>ToString\<close> of \<open>10^21\<close>; an engine that
  leaves a list it cannot order as it is. The samples ask it nothing else.\<close>

definition lowerAscii :: "char \<Rightarrow> char" where
  "lowerAscii c =
     (let n = (of_char c :: nat) in if 65 \<le> n \<and> n \<le> 90 then char_of (n + 32) else c)"

definition sampleTime :: "string \<Rightarrow> number option" where
  "sampleTime str =
     (if str = ''2024-03-01'' then Some 1709251200000
      else if str = ''2024-03-02'' then Some 1709337600000
      else None)"

definition browser :: Runtime where
  "browser = \<lparr>toLowerCase = map lowerAscii, getTime = sampleTime,
               numberToString = (\<lambda>x. if x = 10 ^ 21 then ''1e+21'' else []),
               engineOrder = (\<lambda>xs. xs)\<rparr>"

section \<open>Sale totals\<close>

lemma foldl_add_sum_list:
  fixes f :: "'a \<Rightarrow> number"
  shows "foldl (\<lambda>sum x. sum + f x) a xs = a + sum_list (map f xs)"
  by (induction xs arbitrary: a) simp_all

lemma saleTotalAmount_sum:
  "saleTotalAmount its = (\<Sum>item\<leftarrow>its. SaleItem.quantity item * priceAtSale item)"
  by (simp add: saleTotalAmount_def foldl_add_sum_list)

lemma saleTotalCost_sum:
  "saleTotalCost its = (\<Sum>item\<leftarrow>its. SaleItem.quantity item * costAtSale item)"
  by (simp add: saleTotalCost_def foldl_add_sum_list)

lemma handleCompleteSale_first_effect:
  "\<exists>rest. snd (handleCompleteSale env st its) = Write (InsertSale (newSale env its)) # rest"
  by (simp add: handleCompleteSale_def recover_def Let_def
           split: outcome.splits prod.splits bool.splits)

text \<open>
  C1. For every cart, sale completion creates the record \<open>newSale env its\<close> and
  sends it to the remote store as its first effect. The record carries the cart, its
  \<open>totalAmount\<close> is the sum of quantity times priceAtSale over the cart, and its
  \<open>totalProfit\<close> is that amount minus the sum of quantity times costAtSale. For the
  empty cart both totals are 0.
\<close>

theorem sale_totals:
  "(\<exists>rest. snd (handleCompleteSale env st its) = Write (InsertSale (newSale env its)) # rest) \<and>
   items (newSale env its) = its \<and>
   totalAmount (newSale env its) = (\<Sum>item\<leftarrow>its. SaleItem.quantity item * priceAtSale item) \<and>
   totalProfit (newSale env its) =
     totalAmount (newSale env its) - (\<Sum>item\<leftarrow>its. SaleItem.quantity item * costAtSale item) \<and>
   totalAmount (newSale env []) = 0 \<and>
   totalProfit (newSale env []) = 0"
proof -
  have "items (newSale env its) = its"
    by (simp add: newSale_def)
  moreover have "totalAmount (newSale env its) =
      (\<Sum>item\<leftarrow>its. SaleItem.quantity item * priceAtSale item)"
    by (simp add: newSale_def saleTotalAmount_sum)
  moreover have "totalProfit (newSale env its) =
      totalAmount (newSale env its) - (\<Sum>item\<leftarrow>its. SaleItem.quantity item * costAtSale item)"
    by (simp add: newSale_def saleTotalCost_sum)
  moreover have "totalAmount (newSale env []) = 0" "totalProfit (newSale env []) = 0"
    by (simp_all add: newSale_def saleTotalAmount_def saleTotalCost_def)
  ultimately show ?thesis
    using handleCompleteSale_first_effect by blast
qed

section \<open>Remote writes of sale completion\<close>

lemma writesOf_simps [simp]:
  "writesOf [] = []"
  "writesOf (Write w # es) = w # writesOf es"
  "writesOf (ConsoleError a # es) = writesOf es"
  "writesOf (Alert a # es) = writesOf es"
  "writesOf (SelectFrom a # es) = writesOf es"
  "writesOf (es @ fs) = writesOf es @ writesOf fs"
  by (simp_all add: writesOf_def)

lemma writesOf_fetchData [simp]: "writesOf (snd (fetchData env st)) = []"
  by (simp add: fetchData_def Let_def split: selected.splits)

lemma writesOf_recover [simp]: "writesOf (snd (recover env a b st done)) = writesOf done"
proof (cases "fetchData env st")
  case (Pair st' fetched)
  then have "writesOf fetched = []" using writesOf_fetchData[of env st] by simp
  then show ?thesis using Pair by (simp add: recover_def)
qed

lemma stockUpdateFor_Some:
  "find_first (\<lambda>i. InventoryItem.id i = itemId item) stock = Some currentItem \<Longrightarrow>
   stockUpdateFor env stock (k, item) =
     [UpdateInventory (itemId item)
        (noUpdates\<lparr>InventoryItemPartial.quantity :=
                     Some (InventoryItem.quantity currentItem - SaleItem.quantity item),
                   InventoryItemPartial.lastUpdated := Some (toISOString env (RemoteStamp k))\<rparr>)]"
  by (simp add: stockUpdateFor_def)

lemma stockUpdateFor_None:
  "find_first (\<lambda>i. InventoryItem.id i = itemId item) stock = None \<Longrightarrow>
   stockUpdateFor env stock (k, item) = []"
  by (simp add: stockUpdateFor_def)

lemma updateQuantities_prefix:
  "prefix (writesOf (fst (updateQuantities env stock xs))) (concat (map (stockUpdateFor env stock) xs))"
proof (induction xs)
  case Nil
  show ?case by simp
next
  case (Cons x xs)
  obtain k item where x: "x = (k, item)" by (cases x)
  show ?case
  proof (cases "find_first (\<lambda>i. InventoryItem.id i = itemId item) stock")
    case None
    then show ?thesis using Cons.IH by (simp add: x stockUpdateFor_None)
  next
    case (Some currentItem)
    show ?thesis using Cons.IH
      by (cases "respond env (StockUpdate k)"; cases "updateQuantities env stock xs")
         (simp_all add: x Some stockUpdateFor_Some Let_def)
  qed
qed

lemma updateQuantities_complete:
  assumes "\<forall>k. respond env (StockUpdate k) \<noteq> Thrown"
  shows "writesOf (fst (updateQuantities env stock xs)) = concat (map (stockUpdateFor env stock) xs)
         \<and> snd (updateQuantities env stock xs) = False"
proof (induction xs)
  case Nil
  show ?case by simp
next
  case (Cons x xs)
  obtain k item where x: "x = (k, item)" by (cases x)
  have r: "respond env (StockUpdate k) \<noteq> Thrown" using assms by blast
  show ?case
  proof (cases "find_first (\<lambda>i. InventoryItem.id i = itemId item) stock")
    case None
    then show ?thesis using Cons.IH by (simp add: x stockUpdateFor_None)
  next
    case (Some currentItem)
    show ?thesis using Cons.IH r
      by (cases "respond env (StockUpdate k)"; cases "updateQuantities env stock xs")
         (simp_all add: x Some stockUpdateFor_Some Let_def)
  qed
qed

lemma find_first_None: "find_first P xs = None \<longleftrightarrow> (\<forall>x\<in>set xs. \<not> P x)"
  by (induction xs) auto

lemma length_concat_stockUpdateFor:
  "length (concat (map (stockUpdateFor env stock) xs)) =
   length (filter (\<lambda>ks. \<exists>p\<in>set stock. InventoryItem.id p = itemId (snd ks)) xs)"
proof (induction xs)
  case Nil show ?case by simp
next
  case (Cons x xs)
  obtain k item where x: "x = (k, item)" by (cases x)
  show ?case
  proof (cases "find_first (\<lambda>i. InventoryItem.id i = itemId item) stock")
    case None
    then have "\<not> (\<exists>p\<in>set stock. InventoryItem.id p = itemId item)"
      by (simp add: find_first_None)
    then show ?thesis using Cons.IH None by (simp add: x stockUpdateFor_None)
  next
    case (Some a)
    then have "\<exists>p\<in>set stock. InventoryItem.id p = itemId item"
      using find_first_None[of "\<lambda>i. InventoryItem.id i = itemId item" stock] by auto
    then show ?thesis using Cons.IH Some by (simp add: x stockUpdateFor_Some)
  qed
qed

lemma map_snd_indexed: "map snd (indexed xs) = xs"
  by (simp add: indexed_def)

lemma length_expectedStockUpdates:
  "length (expectedStockUpdates env stock its) =
   length (filter (\<lambda>item. \<exists>p\<in>set stock. InventoryItem.id p = itemId item) its)"
proof -
  have "length (filter (\<lambda>ks. \<exists>p\<in>set stock. InventoryItem.id p = itemId (snd ks)) (indexed its))
      = length (filter (\<lambda>item. \<exists>p\<in>set stock. InventoryItem.id p = itemId item) (map snd (indexed its)))"
    by (simp add: filter_map comp_def)
  then show ?thesis
    by (simp add: expectedStockUpdates_def length_concat_stockUpdateFor map_snd_indexed)
qed

text \<open>
  C6. For every cart (the empty one too), the remote writes of sale completion begin with
  the single insert of the sale record; the writes after it are stock updates, a prefix
  of the list holding one update per cart line whose \<open>itemId\<close> an inventory item has,
  in cart order, each a call of its own. When the insert succeeds and no update call
  rejects, all of these updates are issued. No stock update precedes the insert.
\<close>

theorem sale_write_order:
  "\<exists>ws. writesOf (snd (handleCompleteSale env st its)) = InsertSale (newSale env its) # ws \<and>
        prefix ws (expectedStockUpdates env (inventory st) its) \<and>
        (respond env FirstWrite = Ok \<and> (\<forall>k. respond env (StockUpdate k) \<noteq> Thrown)
           \<longrightarrow> ws = expectedStockUpdates env (inventory st) its) \<and>
        length (expectedStockUpdates env (inventory st) its) =
          length (filter (\<lambda>item. \<exists>p\<in>set (inventory st). InventoryItem.id p = itemId item) its)"
proof (cases "respond env FirstWrite = Ok")
  case False
  then have "writesOf (snd (handleCompleteSale env st its)) = [InsertSale (newSale env its)]"
    by (cases "respond env FirstWrite") (simp_all add: handleCompleteSale_def Let_def)
  then show ?thesis using False by (simp add: length_expectedStockUpdates)
next
  case True
  let ?u = "updateQuantities env (inventory st) (indexed its)"
  have w: "writesOf (snd (handleCompleteSale env st its)) = InsertSale (newSale env its) # writesOf (fst ?u)"
    using True by (cases ?u; cases "snd ?u") (simp_all add: handleCompleteSale_def Let_def)
  have p: "prefix (writesOf (fst ?u)) (expectedStockUpdates env (inventory st) its)"
    unfolding expectedStockUpdates_def by (rule updateQuantities_prefix)
  have c: "(\<forall>k. respond env (StockUpdate k) \<noteq> Thrown) \<longrightarrow> writesOf (fst ?u) = expectedStockUpdates env (inventory st) its"
    unfolding expectedStockUpdates_def using updateQuantities_complete by blast
  show ?thesis using w p c by (simp add: length_expectedStockUpdates)
qed

theorem sale_write_order_witness:
  "respond calmEnv FirstWrite = Ok \<and> (\<forall>k. respond calmEnv (StockUpdate k) \<noteq> Thrown) \<and>
   writesOf (snd (handleCompleteSale calmEnv shop [soapLine, strayLine])) =
     [InsertSale (newSale calmEnv [soapLine, strayLine]),
      UpdateInventory ''A''
        (noUpdates\<lparr>InventoryItemPartial.quantity := Some 3,
                   InventoryItemPartial.lastUpdated := Some ''t1''\<rparr>)]"
  using sale_write_order [of calmEnv shop "[soapLine, strayLine]"]
  by (simp add: calmEnv_def shop_def soap_def soapLine_def strayLine_def
        expectedStockUpdates_def stockUpdateFor_def indexed_def upt_rec)

section \<open>Failures of remote writes\<close>

lemma recover_eq:
  "recover env logged shown st done =
     (fst (fetchData env st), done @ [ConsoleError logged, Alert shown] @ snd (fetchData env st))"
  by (simp add: recover_def split: prod.splits)

lemma handleAddItem_failure:
  assumes "respond env FirstWrite \<noteq> Ok"
  shows "\<exists>st1 w. handleAddItem env st item =
           (fst (fetchData env st1),
            [Write w, ConsoleError ''Error adding item:'', Alert ''Failed to save item to database.'']
              @ snd (fetchData env st1))"
  using assms
  by (cases "respond env FirstWrite") (simp_all add: handleAddItem_def recover_eq Let_def, blast+)

lemma handleUpdateItem_failure:
  assumes "respond env FirstWrite \<noteq> Ok"
  shows "\<exists>st1 w. handleUpdateItem env st i u =
           (fst (fetchData env st1),
            [Write w, ConsoleError ''Error updating item:'', Alert ''Failed to update item in database.'']
              @ snd (fetchData env st1))"
  using assms
  by (cases "respond env FirstWrite") (simp_all add: handleUpdateItem_def recover_eq Let_def, blast+)

lemma handleDeleteItem_failure:
  assumes "respond env FirstWrite \<noteq> Ok" "confirm env"
  shows "\<exists>st1 w. handleDeleteItem env st i =
           (fst (fetchData env st1),
            [Write w, ConsoleError ''Error deleting item:'', Alert ''Failed to delete item from database.'']
              @ snd (fetchData env st1))"
  using assms
  by (cases "respond env FirstWrite") (simp_all add: handleDeleteItem_def recover_eq Let_def, blast+)

lemma handleCompleteSale_insert_failure:
  assumes "respond env FirstWrite \<noteq> Ok"
  shows "\<exists>st1 w. handleCompleteSale env st its =
           (fst (fetchData env st1),
            [Write w, ConsoleError ''Error processing sale:'',
             Alert ''Error saving sale to database. Please check connection.'']
              @ snd (fetchData env st1))"
  using assms
  by (cases "respond env FirstWrite") (simp_all add: handleCompleteSale_def recover_eq Let_def, blast+)

lemma fetchData_rows:
  "selectInventory env = Rows inv' \<Longrightarrow> selectSales env = Rows sales' \<Longrightarrow>
   fst (fetchData env st) = \<lparr>inventory = inv', sales = sales', loading = False\<rparr>"
  by (simp add: fetchData_def)

text \<open>A stock update of sale completion that resolves to an error object goes unnoticed:
  whatever the updates return, short of a rejected call, the handler keeps the
  optimistic state and does nothing but its writes.\<close>

lemma updateQuantities_effects:
  assumes "\<forall>k. respond env (StockUpdate k) \<noteq> Thrown"
  shows "updateQuantities env stock xs = (map Write (concat (map (stockUpdateFor env stock) xs)), False)"
proof (induction xs)
  case Nil
  show ?case by simp
next
  case (Cons x xs)
  obtain k item where x: "x = (k, item)" by (cases x)
  have r: "respond env (StockUpdate k) \<noteq> Thrown" using assms by blast
  show ?case
  proof (cases "find_first (\<lambda>i. InventoryItem.id i = itemId item) stock")
    case None
    then show ?thesis using Cons.IH by (simp add: x stockUpdateFor_None)
  next
    case (Some currentItem)
    show ?thesis using Cons.IH r
      by (cases "respond env (StockUpdate k)")
         (simp_all add: x Some stockUpdateFor_Some Let_def)
  qed
qed

lemma stock_update_errors_ignored:
  assumes "respond env FirstWrite = Ok" "\<forall>k. respond env (StockUpdate k) \<noteq> Thrown"
  shows "handleCompleteSale env st its =
     (st\<lparr>inventory := optimisticInventory env (inventory st) its,
         sales := newSale env its # sales st\<rparr>,
      Write (InsertSale (newSale env its)) # map Write (expectedStockUpdates env (inventory st) its))"
  using assms(1) updateQuantities_effects[OF assms(2), of "inventory st" "indexed its"]
  by (simp add: handleCompleteSale_def Let_def expectedStockUpdates_def)

text \<open>
  C5. A remote write whose failure the handler inspects is logged, shown in an alert and
  followed by a refetch, without a retry (the four lemmas on the first write of each
  handler). The stock updates of sale completion are not inspected. At the sample sale
  the insert of the sale succeeds and the one stock update resolves to an error object:
  the handler keeps the optimistic state and its effects are the two writes alone,
  with no log entry, no alert and no refetch.
\<close>

theorem stock_update_error_unreported:
  "respond refusingEnv (StockUpdate 0) = ErrorReturned \<and>
   handleCompleteSale refusingEnv shop [soapLine] =
     (\<lparr>inventory = [soap\<lparr>InventoryItem.quantity := 3, InventoryItem.lastUpdated := ''t1''\<rparr>],
       sales = [newSale refusingEnv [soapLine]],
       loading = False\<rparr>,
      [Write (InsertSale (newSale refusingEnv [soapLine])),
       Write (UpdateInventory ''A''
          (noUpdates\<lparr>InventoryItemPartial.quantity := Some 3,
                     InventoryItemPartial.lastUpdated := Some ''t1''\<rparr>))])"
  by (simp add: handleCompleteSale_def refusingEnv_def shop_def soap_def soapLine_def
        optimisticInventory_def decrement_def indexed_def Let_def)

section \<open>The optimistic stock decrement\<close>

lemma findIndex_Some:
  "findIndex P xs = Some i \<Longrightarrow> i < length xs \<and> P (xs ! i) \<and> (\<forall>j<i. \<not> P (xs ! j))"
proof (induction xs arbitrary: i)
  case Nil
  then show ?case by simp
next
  case (Cons x xs)
  show ?case
  proof (cases "P x")
    case True
    then show ?thesis using Cons.prems by auto
  next
    case False
    then obtain i' where i': "findIndex P xs = Some i'" "i = Suc i'"
      using Cons.prems by auto
    from Cons.IH[OF i'(1)] False i'(2) show ?thesis
      by (auto simp: less_Suc_eq_0_disj)
  qed
qed

lemma findIndex_None: "findIndex P xs = None \<longleftrightarrow> (\<forall>x\<in>set xs. \<not> P x)"
  by (induction xs) auto

lemma findIndex_map: "findIndex P (map f xs) = findIndex (\<lambda>x. P (f x)) xs"
  by (induction xs) auto

lemma findIndex_same_ids:
  assumes "map InventoryItem.id xs = map InventoryItem.id ys"
  shows "findIndex (\<lambda>p. InventoryItem.id p = x) xs = findIndex (\<lambda>p. InventoryItem.id p = x) ys"
proof -
  have "findIndex (\<lambda>i. i = x) (map InventoryItem.id xs) = findIndex (\<lambda>i. i = x) (map InventoryItem.id ys)"
    using assms by simp
  then show ?thesis by (simp add: findIndex_map)
qed

lemma findIndex_distinct:
  assumes "distinct (map f xs)" "j < length xs"
  shows "findIndex (\<lambda>p. f p = x) xs = Some j \<longleftrightarrow> f (xs ! j) = x"
proof
  assume "findIndex (\<lambda>p. f p = x) xs = Some j"
  then show "f (xs ! j) = x" using findIndex_Some by fastforce
next
  assume fx: "f (xs ! j) = x"
  then have "\<not> (\<forall>y\<in>set xs. f y \<noteq> x)" using assms(2) by auto
  then obtain i where i: "findIndex (\<lambda>p. f p = x) xs = Some i"
    using findIndex_None[of "\<lambda>p. f p = x" xs] by (cases "findIndex (\<lambda>p. f p = x) xs") auto
  then have "i < length xs" "f (xs ! i) = x" using findIndex_Some[OF i] by auto
  then have "map f xs ! i = map f xs ! j" using fx assms(2) by simp
  then have "i = j" using assms \<open>i < length xs\<close>
    by (metis length_map nth_eq_iff_index_eq)
  then show "findIndex (\<lambda>p. f p = x) xs = Some j" using i by simp
qed

lemma tracks_ids:
  assumes "tracks stock its new"
  shows "map InventoryItem.id new = map InventoryItem.id stock"
proof (rule nth_equalityI)
  show "length (map InventoryItem.id new) = length (map InventoryItem.id stock)"
    using assms by (simp add: tracks_def)
next
  fix j assume "j < length (map InventoryItem.id new)"
  then have j: "j < length stock" "j < length new" using assms by (simp_all add: tracks_def)
  have "sameProduct (new ! j) (stock ! j)"
    using assms j by (simp add: tracks_def)
  then show "map InventoryItem.id new ! j = map InventoryItem.id stock ! j"
    using j by (simp add: sameProduct_def)
qed

lemma soldAt_snoc:
  "soldAt stock (its @ [l]) j =
     soldAt stock its j +
       (if findIndex (\<lambda>p. InventoryItem.id p = itemId l) stock = Some j then SaleItem.quantity l else 0)"
  by (simp add: soldAt_def)

lemma tracks_step:
  assumes t: "tracks stock its new"
  shows "tracks stock (its @ [l]) (decrement env new (k, l))"
proof -
  have len: "length new = length stock" using t by (simp add: tracks_def)
  have fi: "findIndex (\<lambda>p. InventoryItem.id p = itemId l) new
          = findIndex (\<lambda>p. InventoryItem.id p = itemId l) stock"
    using findIndex_same_ids[OF tracks_ids[OF t]] .
  show ?thesis
  proof (cases "findIndex (\<lambda>p. InventoryItem.id p = itemId l) stock")
    case None
    then have d: "decrement env new (k, l) = new" using fi by (simp add: decrement_def)
    show ?thesis using t None unfolding d tracks_def
      by (simp add: soldAt_snoc)
  next
    case (Some i)
    then have i: "i < length stock" using findIndex_Some by fastforce
    have d: "decrement env new (k, l) =
        new[i := (new ! i)\<lparr>InventoryItem.quantity := InventoryItem.quantity (new ! i) - SaleItem.quantity l,
                           InventoryItem.lastUpdated := toISOString env (OptimisticStamp k)\<rparr>]"
      using fi Some by (simp add: decrement_def)
    have si: "sameProduct (new ! i) (stock ! i)"
      and qi: "InventoryItem.quantity (new ! i) = InventoryItem.quantity (stock ! i) - soldAt stock its i"
      using t i by (simp_all add: tracks_def)
    show ?thesis unfolding tracks_def
    proof (intro conjI allI impI)
      show "length (decrement env new (k, l)) = length stock" using len d by simp
    next
      fix j assume j: "j < length stock"
      show "sameProduct (decrement env new (k, l) ! j) (stock ! j)"
      proof (cases "j = i")
        case True
        then show ?thesis using d i len si by (simp add: sameProduct_def)
      next
        case False
        then have "decrement env new (k, l) ! j = new ! j" using d by simp
        then show ?thesis using t j by (simp add: tracks_def)
      qed
    next
      fix j assume j: "j < length stock"
      show "InventoryItem.quantity (decrement env new (k, l) ! j) =
           InventoryItem.quantity (stock ! j) - soldAt stock (its @ [l]) j"
      proof (cases "j = i")
        case True
        then show ?thesis using d i len qi Some by (simp add: soldAt_snoc)
      next
        case False
        then have "decrement env new (k, l) ! j = new ! j" using d by simp
        moreover have "soldAt stock (its @ [l]) j = soldAt stock its j"
          using False Some by (simp add: soldAt_snoc)
        ultimately show ?thesis using t j by (simp add: tracks_def)
      qed
    next
      fix j assume j: "j < length stock"
        and no: "\<forall>l\<in>set (its @ [l]). findIndex (\<lambda>p. InventoryItem.id p = itemId l) stock \<noteq> Some j"
      then have "j \<noteq> i" using Some by auto
      then have "decrement env new (k, l) ! j = new ! j" using d by simp
      then show "decrement env new (k, l) ! j = stock ! j" using t j no by (simp add: tracks_def)
    qed
  qed
qed

lemma tracks_foldl: "tracks stock (map snd xs) (foldl (decrement env) stock xs)"
proof (induction xs rule: rev_induct)
  case Nil
  show ?case by (simp add: tracks_def soldAt_def sameProduct_def)
next
  case (snoc x xs)
  obtain k l where x: "x = (k, l)" by (cases x)
  show ?case using tracks_step[OF snoc.IH, of l env k] by (simp add: x)
qed

lemma tracks_optimisticInventory: "tracks stock its (optimisticInventory env stock its)"
  using tracks_foldl[of stock "indexed its" env] by (simp add: optimisticInventory_def indexed_def)


lemma soldAt_distinct:
  assumes "distinct (map InventoryItem.id stock)" "j < length stock"
  shows "soldAt stock its j =
         (\<Sum>l\<leftarrow>filter (\<lambda>l. itemId l = InventoryItem.id (stock ! j)) its. SaleItem.quantity l)"
proof -
  have h: "(findIndex (\<lambda>p. InventoryItem.id p = itemId l) stock = Some j)
         = (itemId l = InventoryItem.id (stock ! j))" for l
    using findIndex_distinct[OF assms, of "itemId l"] by metis
  show ?thesis unfolding soldAt_def by (simp only: h)
qed

lemma decrement_unmatched:
  assumes "\<forall>p\<in>set new. InventoryItem.id p \<noteq> itemId l"
  shows "decrement env new (k, l) = new"
proof -
  have "findIndex (\<lambda>p. InventoryItem.id p = itemId l) new = None"
    using assms by (simp add: findIndex_None)
  then show ?thesis by (simp add: decrement_def)
qed

lemma handleCompleteSale_optimistic:
  assumes "respond env FirstWrite = Ok" "\<forall>k. respond env (StockUpdate k) \<noteq> Thrown"
  shows "inventory (fst (handleCompleteSale env st its)) = optimisticInventory env (inventory st) its"
proof -
  have "snd (updateQuantities env (inventory st) (indexed its)) = False"
    using updateQuantities_complete[OF assms(2)] by blast
  then show ?thesis using assms(1)
    by (cases "updateQuantities env (inventory st) (indexed its)")
       (simp add: handleCompleteSale_def Let_def)
qed

lemma optimisticInventory_untouched:
  assumes "j < length stock" "\<forall>l\<in>set its. itemId l \<noteq> InventoryItem.id (stock ! j)"
  shows "optimisticInventory env stock its ! j = stock ! j"
proof -
  have "\<forall>l\<in>set its. findIndex (\<lambda>p. InventoryItem.id p = itemId l) stock \<noteq> Some j"
  proof
    fix l assume "l \<in> set its"
    then have "itemId l \<noteq> InventoryItem.id (stock ! j)" using assms(2) by blast
    then show "findIndex (\<lambda>p. InventoryItem.id p = itemId l) stock \<noteq> Some j"
      using findIndex_Some[of "\<lambda>p. InventoryItem.id p = itemId l" stock j] by auto
  qed
  then show ?thesis
    using tracks_optimisticInventory[of stock its env] assms(1) by (simp add: tracks_def)
qed

lemma optimisticInventory_row:
  assumes "j < length stock"
  shows "sameProduct (optimisticInventory env stock its ! j) (stock ! j)"
    and "InventoryItem.quantity (optimisticInventory env stock its ! j) =
         InventoryItem.quantity (stock ! j) - soldAt stock its j"
  using tracks_optimisticInventory[of stock its env] assms by (simp_all add: tracks_def)

lemma stamped_foldl:
  assumes "j < length stock"
    "\<exists>kl\<in>set xs. findIndex (\<lambda>p. InventoryItem.id p = itemId (snd kl)) stock = Some j"
  shows "\<exists>kl\<in>set xs. InventoryItem.lastUpdated (foldl (decrement env) stock xs ! j)
           = toISOString env (OptimisticStamp (fst kl))"
  using assms(2)
proof (induction xs rule: rev_induct)
  case Nil
  then show ?case by simp
next
  case (snoc x xs)
  obtain k l where x: "x = (k, l)" by (cases x)
  let ?new = "foldl (decrement env) stock xs"
  have t: "tracks stock (map snd xs) ?new" by (rule tracks_foldl)
  have len: "length ?new = length stock" using t by (simp add: tracks_def)
  have fi: "findIndex (\<lambda>p. InventoryItem.id p = itemId l) ?new
          = findIndex (\<lambda>p. InventoryItem.id p = itemId l) stock"
    using findIndex_same_ids[OF tracks_ids[OF t]] .
  show ?case
  proof (cases "findIndex (\<lambda>p. InventoryItem.id p = itemId l) stock = Some j")
    case True
    then have "InventoryItem.lastUpdated (decrement env ?new (k, l) ! j) = toISOString env (OptimisticStamp k)"
      using fi len assms(1) by (simp add: decrement_def)
    then show ?thesis by (simp add: x)
  next
    case False
    then have m: "\<exists>kl\<in>set xs. findIndex (\<lambda>p. InventoryItem.id p = itemId (snd kl)) stock = Some j"
      using snoc.prems by (auto simp: x)
    have same: "decrement env ?new (k, l) ! j = ?new ! j"
    proof (cases "findIndex (\<lambda>p. InventoryItem.id p = itemId l) stock")
      case None
      then show ?thesis using fi by (simp add: decrement_def)
    next
      case (Some i)
      then have "i \<noteq> j" using False by simp
      then show ?thesis using fi Some by (simp add: decrement_def)
    qed
    from snoc.IH[OF m] obtain kl where "kl \<in> set xs"
      "InventoryItem.lastUpdated (?new ! j) = toISOString env (OptimisticStamp (fst kl))" by blast
    then show ?thesis using same by (auto simp: x)
  qed
qed

lemma optimisticInventory_stamped:
  assumes "j < length stock"
    "\<exists>l\<in>set its. findIndex (\<lambda>p. InventoryItem.id p = itemId l) stock = Some j"
  shows "\<exists>k<length its. InventoryItem.lastUpdated (optimisticInventory env stock its ! j)
           = toISOString env (OptimisticStamp k)"
proof -
  from assms(2) obtain l where l: "l \<in> set its"
      "findIndex (\<lambda>p. InventoryItem.id p = itemId l) stock = Some j" by blast
  then obtain k where k: "k < length its" "its ! k = l" by (auto simp: in_set_conv_nth)
  then have "(k, l) \<in> set (indexed its)"
    by (auto simp: indexed_def in_set_zip intro!: exI[of _ k])
  then have "\<exists>kl\<in>set (indexed its). findIndex (\<lambda>p. InventoryItem.id p = itemId (snd kl)) stock = Some j"
    using l(2) by force
  from stamped_foldl[OF assms(1) this, of env]
  obtain kl where kl: "kl \<in> set (indexed its)"
    "InventoryItem.lastUpdated (foldl (decrement env) stock (indexed its) ! j)
       = toISOString env (OptimisticStamp (fst kl))" by blast
  have "fst kl < length its" using kl(1) by (auto simp: indexed_def in_set_zip)
  then show ?thesis using kl(2) by (auto simp: optimisticInventory_def)
qed

text \<open>
  C4. For every cart and inventory, the optimistic update keeps the length of the
  inventory, and at every position \<open>j\<close>: the new quantity is the old one minus
  \<open>soldAt\<close>, the quantities of the cart lines resolved to \<open>j\<close> (with distinct
  inventory ids these are the lines whose \<open>itemId\<close> is the item's id); id, name,
  category, costPrice, salesPrice and lowStockThreshold are unchanged; an item whose
  id no cart line carries is unchanged altogether; an item some line is resolved to
  has a \<open>lastUpdated\<close> read from the clock in the loop. A cart line whose \<open>itemId\<close> no
  inventory item has leaves the inventory as it is. When the sale insert succeeds and
  no update call rejects, this inventory is the state the handler leaves.
\<close>

theorem optimistic_decrement_frame:
  "length (optimisticInventory env stock its) = length stock \<and>
   (\<forall>j<length stock.
      InventoryItem.quantity (optimisticInventory env stock its ! j) =
        InventoryItem.quantity (stock ! j) - soldAt stock its j \<and>
      InventoryItem.id (optimisticInventory env stock its ! j) = InventoryItem.id (stock ! j) \<and>
      InventoryItem.name (optimisticInventory env stock its ! j) = InventoryItem.name (stock ! j) \<and>
      InventoryItem.category (optimisticInventory env stock its ! j) = InventoryItem.category (stock ! j) \<and>
      InventoryItem.costPrice (optimisticInventory env stock its ! j) = InventoryItem.costPrice (stock ! j) \<and>
      InventoryItem.salesPrice (optimisticInventory env stock its ! j) = InventoryItem.salesPrice (stock ! j) \<and>
      InventoryItem.lowStockThreshold (optimisticInventory env stock its ! j) =
        InventoryItem.lowStockThreshold (stock ! j) \<and>
      ((\<forall>l\<in>set its. itemId l \<noteq> InventoryItem.id (stock ! j))
         \<longrightarrow> optimisticInventory env stock its ! j = stock ! j) \<and>
      ((\<exists>l\<in>set its. findIndex (\<lambda>p. InventoryItem.id p = itemId l) stock = Some j) \<longrightarrow>
         (\<exists>k<length its. InventoryItem.lastUpdated (optimisticInventory env stock its ! j) =
            toISOString env (OptimisticStamp k))) \<and>
      (distinct (map InventoryItem.id stock) \<longrightarrow>
         soldAt stock its j =
           (\<Sum>l\<leftarrow>filter (\<lambda>l. itemId l = InventoryItem.id (stock ! j)) its. SaleItem.quantity l))) \<and>
   (\<forall>new k l. (\<forall>p\<in>set new. InventoryItem.id p \<noteq> itemId l) \<longrightarrow> decrement env new (k, l) = new) \<and>
   (respond env FirstWrite = Ok \<and> (\<forall>k. respond env (StockUpdate k) \<noteq> Thrown) \<longrightarrow>
      inventory (fst (handleCompleteSale env \<lparr>inventory = stock, sales = sold, loading = busy\<rparr> its)) =
        optimisticInventory env stock its)"
proof -
  have "length (optimisticInventory env stock its) = length stock"
    using tracks_optimisticInventory[of stock its env] by (simp add: tracks_def)
  moreover have "\<forall>new k l. (\<forall>p\<in>set new. InventoryItem.id p \<noteq> itemId l) \<longrightarrow> decrement env new (k, l) = new"
    using decrement_unmatched by blast
  moreover have "respond env FirstWrite = Ok \<and> (\<forall>k. respond env (StockUpdate k) \<noteq> Thrown) \<longrightarrow>
      inventory (fst (handleCompleteSale env \<lparr>inventory = stock, sales = sold, loading = busy\<rparr> its)) =
        optimisticInventory env stock its"
    using handleCompleteSale_optimistic[of env "\<lparr>inventory = stock, sales = sold, loading = busy\<rparr>" its]
    by simp
  moreover have "\<forall>j<length stock.
      InventoryItem.quantity (optimisticInventory env stock its ! j) =
        InventoryItem.quantity (stock ! j) - soldAt stock its j \<and>
      InventoryItem.id (optimisticInventory env stock its ! j) = InventoryItem.id (stock ! j) \<and>
      InventoryItem.name (optimisticInventory env stock its ! j) = InventoryItem.name (stock ! j) \<and>
      InventoryItem.category (optimisticInventory env stock its ! j) = InventoryItem.category (stock ! j) \<and>
      InventoryItem.costPrice (optimisticInventory env stock its ! j) = InventoryItem.costPrice (stock ! j) \<and>
      InventoryItem.salesPrice (optimisticInventory env stock its ! j) = InventoryItem.salesPrice (stock ! j) \<and>
      InventoryItem.lowStockThreshold (optimisticInventory env stock its ! j) =
        InventoryItem.lowStockThreshold (stock ! j) \<and>
      ((\<forall>l\<in>set its. itemId l \<noteq> InventoryItem.id (stock ! j))
         \<longrightarrow> optimisticInventory env stock its ! j = stock ! j) \<and>
      ((\<exists>l\<in>set its. findIndex (\<lambda>p. InventoryItem.id p = itemId l) stock = Some j) \<longrightarrow>
         (\<exists>k<length its. InventoryItem.lastUpdated (optimisticInventory env stock its ! j) =
            toISOString env (OptimisticStamp k))) \<and>
      (distinct (map InventoryItem.id stock) \<longrightarrow>
         soldAt stock its j =
           (\<Sum>l\<leftarrow>filter (\<lambda>l. itemId l = InventoryItem.id (stock ! j)) its. SaleItem.quantity l))"
  proof (intro allI impI)
    fix j assume j: "j < length stock"
    have e: "sameProduct (optimisticInventory env stock its ! j) (stock ! j)"
      using j by (rule optimisticInventory_row)
    have q: "InventoryItem.quantity (optimisticInventory env stock its ! j) =
         InventoryItem.quantity (stock ! j) - soldAt stock its j"
      using j by (rule optimisticInventory_row)
    have u: "(\<forall>l\<in>set its. itemId l \<noteq> InventoryItem.id (stock ! j))
         \<longrightarrow> optimisticInventory env stock its ! j = stock ! j"
      using optimisticInventory_untouched[OF j] by blast
    have st: "(\<exists>l\<in>set its. findIndex (\<lambda>p. InventoryItem.id p = itemId l) stock = Some j) \<longrightarrow>
         (\<exists>k<length its. InventoryItem.lastUpdated (optimisticInventory env stock its ! j) =
            toISOString env (OptimisticStamp k))"
      using optimisticInventory_stamped[OF j] by blast
    have d: "distinct (map InventoryItem.id stock) \<longrightarrow>
         soldAt stock its j =
           (\<Sum>l\<leftarrow>filter (\<lambda>l. itemId l = InventoryItem.id (stock ! j)) its. SaleItem.quantity l)"
      using soldAt_distinct[of stock j its] j by blast
    from e have f: "InventoryItem.id (optimisticInventory env stock its ! j) = InventoryItem.id (stock ! j)"
      "InventoryItem.name (optimisticInventory env stock its ! j) = InventoryItem.name (stock ! j)"
      "InventoryItem.category (optimisticInventory env stock its ! j) = InventoryItem.category (stock ! j)"
      "InventoryItem.costPrice (optimisticInventory env stock its ! j) = InventoryItem.costPrice (stock ! j)"
      "InventoryItem.salesPrice (optimisticInventory env stock its ! j) = InventoryItem.salesPrice (stock ! j)"
      "InventoryItem.lowStockThreshold (optimisticInventory env stock its ! j) =
        InventoryItem.lowStockThreshold (stock ! j)"
      by (simp_all add: sameProduct_def)
    show "InventoryItem.quantity (optimisticInventory env stock its ! j) =
        InventoryItem.quantity (stock ! j) - soldAt stock its j \<and>
      InventoryItem.id (optimisticInventory env stock its ! j) = InventoryItem.id (stock ! j) \<and>
      InventoryItem.name (optimisticInventory env stock its ! j) = InventoryItem.name (stock ! j) \<and>
      InventoryItem.category (optimisticInventory env stock its ! j) = InventoryItem.category (stock ! j) \<and>
      InventoryItem.costPrice (optimisticInventory env stock its ! j) = InventoryItem.costPrice (stock ! j) \<and>
      InventoryItem.salesPrice (optimisticInventory env stock its ! j) = InventoryItem.salesPrice (stock ! j) \<and>
      InventoryItem.lowStockThreshold (optimisticInventory env stock its ! j) =
        InventoryItem.lowStockThreshold (stock ! j) \<and>
      ((\<forall>l\<in>set its. itemId l \<noteq> InventoryItem.id (stock ! j))
         \<longrightarrow> optimisticInventory env stock its ! j = stock ! j) \<and>
      ((\<exists>l\<in>set its. findIndex (\<lambda>p. InventoryItem.id p = itemId l) stock = Some j) \<longrightarrow>
         (\<exists>k<length its. InventoryItem.lastUpdated (optimisticInventory env stock its ! j) =
            toISOString env (OptimisticStamp k))) \<and>
      (distinct (map InventoryItem.id stock) \<longrightarrow>
         soldAt stock its j =
           (\<Sum>l\<leftarrow>filter (\<lambda>l. itemId l = InventoryItem.id (stock ! j)) its. SaleItem.quantity l))"
      using q f u st d by (intro conjI)
  qed
  ultimately show ?thesis by (intro conjI)
qed


theorem optimistic_decrement_frame_witness:
  "(0::nat) < length [soap] \<and> distinct (map InventoryItem.id [soap]) \<and>
   respond calmEnv FirstWrite = Ok \<and> (\<forall>k. respond calmEnv (StockUpdate k) \<noteq> Thrown) \<and>
   InventoryItem.id soap \<noteq> itemId strayLine \<and>
   InventoryItem.quantity (optimisticInventory calmEnv [soap] [soapLine, strayLine] ! 0) = 3 \<and>
   InventoryItem.name (optimisticInventory calmEnv [soap] [soapLine, strayLine] ! 0) = ''Soap'' \<and>
   decrement calmEnv [soap] (1, strayLine) = [soap] \<and>
   inventory (fst (handleCompleteSale calmEnv shop [soapLine, strayLine])) =
     optimisticInventory calmEnv [soap] [soapLine, strayLine]"
proof -
  note t = optimistic_decrement_frame [of calmEnv "[soap]" "[soapLine, strayLine]" "[]" False]
  have r: "respond calmEnv FirstWrite = Ok" "\<forall>k. respond calmEnv (StockUpdate k) \<noteq> Thrown"
    by (simp_all add: calmEnv_def)
  have s: "\<forall>p\<in>set [soap]. InventoryItem.id p \<noteq> itemId strayLine"
    by (simp add: soap_def strayLine_def)
  have d: "distinct (map InventoryItem.id [soap])" by simp
  have sold: "soldAt [soap] [soapLine, strayLine] 0 = 2"
    by (simp add: soldAt_def soap_def soapLine_def strayLine_def)
  have q: "InventoryItem.quantity (optimisticInventory calmEnv [soap] [soapLine, strayLine] ! 0) = 3"
    using t sold by (simp add: soap_def)
  have n: "InventoryItem.name (optimisticInventory calmEnv [soap] [soapLine, strayLine] ! 0) = ''Soap''"
    using t by (simp add: soap_def)
  have u: "decrement calmEnv [soap] (1, strayLine) = [soap]"
    using t s by blast
  have i: "inventory (fst (handleCompleteSale calmEnv shop [soapLine, strayLine])) =
     optimisticInventory calmEnv [soap] [soapLine, strayLine]"
    using t r by (simp add: shop_def)
  have s': "InventoryItem.id soap \<noteq> itemId strayLine"
    using s by simp
  show ?thesis using r s' d q n u i by simp
qed

section \<open>Non-negative quantities\<close>

lemma filter_distinct_key:
  assumes "distinct (map f xs)" "\<forall>l\<in>set (filter P xs). f l = x"
  shows "filter P xs = [] \<or> (\<exists>l\<in>set xs. P l \<and> filter P xs = [l])"
  using assms
proof (induction xs)
  case Nil
  then show ?case by simp
next
  case (Cons y ys)
  show ?case
  proof (cases "P y")
    case True
    then have fy: "f y = x" using Cons.prems(2) by simp
    have "filter P ys = []"
    proof (rule ccontr)
      assume "filter P ys \<noteq> []"
      then obtain l where l: "l \<in> set (filter P ys)" by (cases "filter P ys") auto
      then have "f l = x" using Cons.prems(2) by simp
      moreover have "l \<in> set ys" using l by simp
      ultimately have "f y \<in> f ` set ys" using fy by force
      then show False using Cons.prems(1) by simp
    qed
    then show ?thesis using True by simp
  next
    case False
    then have "filter P ys = [] \<or> (\<exists>l\<in>set ys. P l \<and> filter P ys = [l])"
      using Cons.IH Cons.prems by simp
    then show ?thesis using False by auto
  qed
qed

lemma soldAt_within_stock:
  assumes c: "cartWithinStock stock its" and j: "j < length stock"
    and nn: "0 \<le> InventoryItem.quantity (stock ! j)"
  shows "soldAt stock its j \<le> InventoryItem.quantity (stock ! j)"
proof -
  let ?P = "\<lambda>l. findIndex (\<lambda>p. InventoryItem.id p = itemId l) stock = Some j"
  have k: "\<forall>l\<in>set (filter ?P its). itemId l = InventoryItem.id (stock ! j)"
    using findIndex_Some by fastforce
  have d: "distinct (map itemId its)" using c by (simp add: cartWithinStock_def)
  from filter_distinct_key[OF d k]
  show ?thesis
  proof
    assume "filter ?P its = []"
    then show ?thesis using nn by (simp add: soldAt_def)
  next
    assume "\<exists>l\<in>set its. ?P l \<and> filter ?P its = [l]"
    then obtain l where l: "l \<in> set its" "?P l" "filter ?P its = [l]" by blast
    have "InventoryItem.id (stock ! j) = itemId l" using findIndex_Some[OF l(2)] by simp
    moreover have "stock ! j \<in> set stock" using j by simp
    ultimately have "SaleItem.quantity l \<le> InventoryItem.quantity (stock ! j)"
      using c l(1) unfolding cartWithinStock_def by blast
    then show ?thesis using l(3) by (simp add: soldAt_def)
  qed
qed

text \<open>From a cart with one line per product, within the stock, the optimistic decrement
  leaves no negative quantity.\<close>

lemma optimisticInventory_nonneg:
  assumes c: "cartWithinStock stock its" and nn: "\<forall>p\<in>set stock. 0 \<le> InventoryItem.quantity p"
  shows "\<forall>p\<in>set (optimisticInventory env stock its). 0 \<le> InventoryItem.quantity p"
proof
  fix p assume "p \<in> set (optimisticInventory env stock its)"
  then obtain j where j: "j < length (optimisticInventory env stock its)"
      "p = optimisticInventory env stock its ! j"
    by (auto simp: in_set_conv_nth)
  have len: "length (optimisticInventory env stock its) = length stock"
    using tracks_optimisticInventory[of stock its env] by (simp add: tracks_def)
  then have js: "j < length stock" using j(1) by simp
  then have "0 \<le> InventoryItem.quantity (stock ! j)" using nn by simp
  then have "soldAt stock its j \<le> InventoryItem.quantity (stock ! j)"
    using soldAt_within_stock[OF c js] by simp
  moreover have "InventoryItem.quantity p = InventoryItem.quantity (stock ! j) - soldAt stock its j"
    using optimisticInventory_row(2)[OF js] j(2) by simp
  ultimately show "0 \<le> InventoryItem.quantity p" by simp
qed

text \<open>The stock adjustment handler calls \<open>onUpdate\<close> only with a quantity that
  \<open>parseInt\<close> read as a number and that is at least 0, whatever \<open>parseInt\<close> is.\<close>

lemma handleStockAdjustment_nonneg:
  assumes "OnUpdate i u \<in> set (snd (handleStockAdjustment parseInt st))"
  shows "\<exists>q. parseInt (adjustQty st) = Some q \<and> 0 \<le> q \<and>
             u = noUpdates\<lparr>InventoryItemPartial.quantity := Some q\<rparr>"
  using assms
  by (auto simp: handleStockAdjustment_def split: option.splits if_splits)

lemma distinct_ids_same:
  assumes "distinct (map InventoryItem.id stock)" "p \<in> set stock" "p' \<in> set stock"
    "InventoryItem.id p' = InventoryItem.id p"
  shows "p' = p"
  using assms by (meson distinct_map inj_onD)

lemma addToCart_cases:
  assumes sp: "selectedProduct st = Some p"
  shows "cart (fst (addToCart st)) = cart st \<or>
    (\<exists>i. findIndex (\<lambda>item. itemId item = InventoryItem.id p) (cart st) = Some i \<and>
         SaleItem.quantity (cart st ! i) + qtyInput st \<le> InventoryItem.quantity p \<and>
         cart (fst (addToCart st)) =
           (cart st)[i := (cart st ! i)\<lparr>SaleItem.quantity := SaleItem.quantity (cart st ! i) + qtyInput st\<rparr>]) \<or>
    (findIndex (\<lambda>item. itemId item = InventoryItem.id p) (cart st) = None \<and>
     qtyInput st \<le> InventoryItem.quantity p \<and>
     cart (fst (addToCart st)) =
       cart st @ [\<lparr>itemId = InventoryItem.id p, name = InventoryItem.name p, quantity = qtyInput st,
                   priceAtSale = InventoryItem.salesPrice p, costAtSale = InventoryItem.costPrice p,
                   discount = None\<rparr>])"
  using sp
  by (auto simp: addToCart_def resetSelection_def Let_def split: option.splits)

text \<open>\<open>addToCart\<close> keeps a cart within the stock as long as the selected product is an
  item of the inventory the cart is measured against. The terminal does not see to
  that: see \<open>stale_selection_oversells\<close>.\<close>

lemma addToCart_keeps_cartWithinStock:
  assumes sp: "selectedProduct st = Some p" and ps: "p \<in> set stock"
    and ds: "distinct (map InventoryItem.id stock)"
    and c: "cartWithinStock stock (cart st)"
  shows "cartWithinStock stock (cart (fst (addToCart st)))"
proof -
  from addToCart_cases[OF sp] show ?thesis
  proof (elim disjE exE conjE)
    assume "cart (fst (addToCart st)) = cart st"
    then show ?thesis using c by simp
  next
    fix i
    assume fi: "findIndex (\<lambda>item. itemId item = InventoryItem.id p) (cart st) = Some i"
      and le: "SaleItem.quantity (cart st ! i) + qtyInput st \<le> InventoryItem.quantity p"
      and nc: "cart (fst (addToCart st)) =
           (cart st)[i := (cart st ! i)\<lparr>SaleItem.quantity := SaleItem.quantity (cart st ! i) + qtyInput st\<rparr>]"
    let ?x = "(cart st ! i)\<lparr>SaleItem.quantity := SaleItem.quantity (cart st ! i) + qtyInput st\<rparr>"
    have i: "i < length (cart st)" "itemId (cart st ! i) = InventoryItem.id p"
      using findIndex_Some[OF fi] by simp_all
    have m: "map itemId ((cart st)[i := ?x]) = map itemId (cart st)"
      using i by (simp add: map_update list_update_same_conv)
    have "\<forall>l\<in>set ((cart st)[i := ?x]). \<forall>q\<in>set stock.
        InventoryItem.id q = itemId l \<longrightarrow> SaleItem.quantity l \<le> InventoryItem.quantity q"
    proof (intro ballI impI)
      fix l q assume l: "l \<in> set ((cart st)[i := ?x])" and q: "q \<in> set stock"
        and e: "InventoryItem.id q = itemId l"
      from l have "l = ?x \<or> l \<in> set (cart st)"
        using set_update_subset_insert[of "cart st" i ?x] by auto
      then show "SaleItem.quantity l \<le> InventoryItem.quantity q"
      proof
        assume lx: "l = ?x"
        then have "InventoryItem.id q = InventoryItem.id p" using e i(2) by simp
        then have "q = p" using distinct_ids_same[OF ds ps q] by simp
        then show ?thesis using lx le by simp
      next
        assume "l \<in> set (cart st)"
        then show ?thesis using c q e unfolding cartWithinStock_def by blast
      qed
    qed
    then show ?thesis using c m unfolding nc cartWithinStock_def by simp
  next
    assume fi: "findIndex (\<lambda>item. itemId item = InventoryItem.id p) (cart st) = None"
      and le: "qtyInput st \<le> InventoryItem.quantity p"
      and nc: "cart (fst (addToCart st)) =
       cart st @ [\<lparr>itemId = InventoryItem.id p, name = InventoryItem.name p, quantity = qtyInput st,
                   priceAtSale = InventoryItem.salesPrice p, costAtSale = InventoryItem.costPrice p,
                   discount = None\<rparr>]"
    have fresh: "InventoryItem.id p \<notin> itemId ` set (cart st)"
      using fi by (auto simp: findIndex_None)
    have "\<forall>q\<in>set stock. InventoryItem.id q = InventoryItem.id p \<longrightarrow> qtyInput st \<le> InventoryItem.quantity q"
      using distinct_ids_same[OF ds ps] le by blast
    then show ?thesis using c fresh unfolding nc cartWithinStock_def by auto
  qed
qed

text \<open>The empty cart is of that kind, and removing a line keeps a cart so.\<close>

lemma cartWithinStock_empty: "cartWithinStock stock []"
  by (simp add: cartWithinStock_def)

lemma removeFromCart_keeps_cartWithinStock:
  assumes "cartWithinStock stock (cart st)"
  shows "cartWithinStock stock (cart (removeFromCart st index))"
proof -
  let ?c = "take index (cart st) @ drop (Suc index) (cart st)"
  have s: "set ?c \<subseteq> set (cart st)"
    using set_take_subset[of index "cart st"] set_drop_subset[of "Suc index" "cart st"] by auto
  have "cart st = take index (cart st) @ drop index (cart st)" by simp
  then have "distinct (map itemId (take index (cart st)) @ map itemId (drop index (cart st)))"
    using assms unfolding cartWithinStock_def by (metis map_append)
  moreover have "set (map itemId (drop (Suc index) (cart st))) \<subseteq> set (map itemId (drop index (cart st)))"
    by (metis drop_map set_drop_subset_set_drop le_SucI order_refl)
  moreover have "distinct (map itemId (drop (Suc index) (cart st)))"
    using assms unfolding cartWithinStock_def by (simp add: distinct_drop flip: drop_map)
  ultimately have "distinct (map itemId ?c)" by auto
  then show ?thesis using assms s unfolding cartWithinStock_def removeFromCart_def by auto
qed

text \<open>
  C7. The guards of \<open>addToCart\<close> compare the entered quantity with the quantity of the
  selected product, the object that was clicked, not with the stock of the inventory.
  \<open>handleCheckout\<close> leaves the selection in place and sale completion replaces the sold
  item, so the selection can be stale. From a stock of 5: add 3 to the cart, select the
  product again, check out (the stock is 2, the selection still says 5), enter 5 and
  add it (no guard objects), check out. The stock is then -3.
\<close>

theorem stale_selection_oversells:
  "(let t1 = fst (addToCart (setQtyInput (selectProduct counter soap) 3));
        t2 = selectProduct t1 soap;
        (app3, t3) = checkout calmEnv (shop, t2);
        t4 = setQtyInput t3 5;
        (t5, alerts) = addToCart t4;
        (app6, t6) = checkout calmEnv (app3, t5)
    in (map InventoryItem.quantity (inventory shop),
        map SaleItem.quantity (cart t2),
        map InventoryItem.quantity (inventory app3),
        map_option InventoryItem.quantity (selectedProduct t3),
        alerts,
        map SaleItem.quantity (cart t5),
        map InventoryItem.quantity (inventory app6)))
   = ([5], [3], [2], Some 5, [], [5], [- 3])"
  by code_simp

section \<open>The cart of the sales terminal\<close>

text \<open>
  C2. For every cart and every selected product with a line in the cart (\<open>findIndex\<close>
  finds it at \<open>i\<close>): when the quantity of that line plus the entered quantity
  exceeds the stock of the product, \<open>addToCart\<close> rejects with an alert and the state,
  with the old quantity, is unchanged; when the entered quantity is positive and the sum
  is within the stock, the line at \<open>i\<close> gets the summed quantity and nothing else in the
  cart changes. In every case the cart is the old one or the merged one: no line is
  added and the \<open>itemId\<close>s of the lines are the same, so a product with a single line
  keeps a single line.
\<close>

theorem addToCart_merges:
  "selectedProduct st = Some p \<and>
   findIndex (\<lambda>item. itemId item = InventoryItem.id p) (cart st) = Some i \<longrightarrow>
     (SaleItem.quantity (cart st ! i) + qtyInput st > InventoryItem.quantity p \<longrightarrow>
        fst (addToCart st) = st \<and> snd (addToCart st) \<noteq> []) \<and>
     (0 < qtyInput st \<and> qtyInput st \<le> InventoryItem.quantity p \<and>
      SaleItem.quantity (cart st ! i) + qtyInput st \<le> InventoryItem.quantity p \<longrightarrow>
        cart (fst (addToCart st)) =
          (cart st)[i := (cart st ! i)\<lparr>SaleItem.quantity := SaleItem.quantity (cart st ! i) + qtyInput st\<rparr>] \<and>
        snd (addToCart st) = []) \<and>
     (cart (fst (addToCart st)) = cart st \<or>
      cart (fst (addToCart st)) =
        (cart st)[i := (cart st ! i)\<lparr>SaleItem.quantity := SaleItem.quantity (cart st ! i) + qtyInput st\<rparr>]) \<and>
     length (cart (fst (addToCart st))) = length (cart st) \<and>
     map itemId (cart (fst (addToCart st))) = map itemId (cart st)"
proof (intro impI, elim conjE)
  assume sp: "selectedProduct st = Some p"
    and fi: "findIndex (\<lambda>item. itemId item = InventoryItem.id p) (cart st) = Some i"
  let ?merged = "(cart st)[i := (cart st ! i)\<lparr>SaleItem.quantity := SaleItem.quantity (cart st ! i) + qtyInput st\<rparr>]"
  have i: "i < length (cart st)" using findIndex_Some[OF fi] by simp
  have m: "map itemId ?merged = map itemId (cart st)"
    using i by (simp add: map_update list_update_same_conv)
  have r: "SaleItem.quantity (cart st ! i) + qtyInput st > InventoryItem.quantity p \<longrightarrow>
        fst (addToCart st) = st \<and> snd (addToCart st) \<noteq> []"
    using sp fi by (simp add: addToCart_def)
  have a: "0 < qtyInput st \<and> qtyInput st \<le> InventoryItem.quantity p \<and>
      SaleItem.quantity (cart st ! i) + qtyInput st \<le> InventoryItem.quantity p \<longrightarrow>
        cart (fst (addToCart st)) = ?merged \<and> snd (addToCart st) = []"
    using sp fi by (simp add: addToCart_def resetSelection_def Let_def)
  have d: "cart (fst (addToCart st)) = cart st \<or> cart (fst (addToCart st)) = ?merged"
    using sp fi by (simp add: addToCart_def resetSelection_def Let_def)
  have l: "length (cart (fst (addToCart st))) = length (cart st)"
    using d by auto
  have k: "map itemId (cart (fst (addToCart st))) = map itemId (cart st)"
    using d m by auto
  show "(SaleItem.quantity (cart st ! i) + qtyInput st > InventoryItem.quantity p \<longrightarrow>
        fst (addToCart st) = st \<and> snd (addToCart st) \<noteq> []) \<and>
     (0 < qtyInput st \<and> qtyInput st \<le> InventoryItem.quantity p \<and>
      SaleItem.quantity (cart st ! i) + qtyInput st \<le> InventoryItem.quantity p \<longrightarrow>
        cart (fst (addToCart st)) = ?merged \<and> snd (addToCart st) = []) \<and>
     (cart (fst (addToCart st)) = cart st \<or> cart (fst (addToCart st)) = ?merged) \<and>
     length (cart (fst (addToCart st))) = length (cart st) \<and>
     map itemId (cart (fst (addToCart st))) = map itemId (cart st)"
    using r a d l k by (intro conjI)
qed

theorem addToCart_merges_witness:
  "selectedProduct till = Some soap \<and>
   findIndex (\<lambda>item. itemId item = InventoryItem.id soap) (cart till) = Some 0 \<and>
   cart (fst (addToCart till)) = [soapLine\<lparr>SaleItem.quantity := 5\<rparr>] \<and>
   SaleItem.quantity (cart (till\<lparr>qtyInput := 4\<rparr>) ! 0) + qtyInput (till\<lparr>qtyInput := 4\<rparr>)
     > InventoryItem.quantity soap \<and>
   fst (addToCart (till\<lparr>qtyInput := 4\<rparr>)) = till\<lparr>qtyInput := 4\<rparr>"
proof -
  have s: "selectedProduct till = Some soap"
    by (simp add: till_def)
  have s4: "selectedProduct (till\<lparr>qtyInput := 4\<rparr>) = Some soap"
    by (simp add: till_def)
  have f: "findIndex (\<lambda>item. itemId item = InventoryItem.id soap) (cart till) = Some 0"
    by (simp add: till_def soap_def soapLine_def)
  have f4: "findIndex (\<lambda>item. itemId item = InventoryItem.id soap) (cart (till\<lparr>qtyInput := 4\<rparr>)) = Some 0"
    by (simp add: till_def soap_def soapLine_def)
  have q: "0 < qtyInput till \<and> qtyInput till \<le> InventoryItem.quantity soap \<and>
      SaleItem.quantity (cart till ! 0) + qtyInput till \<le> InventoryItem.quantity soap"
    by (simp add: till_def soap_def soapLine_def)
  have g: "SaleItem.quantity (cart (till\<lparr>qtyInput := 4\<rparr>) ! 0) + qtyInput (till\<lparr>qtyInput := 4\<rparr>)
     > InventoryItem.quantity soap"
    by (simp add: till_def soap_def soapLine_def)
  have "cart (fst (addToCart till)) =
      (cart till)[0 := (cart till ! 0)\<lparr>SaleItem.quantity := SaleItem.quantity (cart till ! 0) + qtyInput till\<rparr>]"
    using addToCart_merges [of till soap 0] s f q by blast
  also have "\<dots> = [soapLine\<lparr>SaleItem.quantity := 5\<rparr>]"
    by (simp add: till_def soapLine_def)
  finally have a: "cart (fst (addToCart till)) = [soapLine\<lparr>SaleItem.quantity := 5\<rparr>]" .
  have b: "fst (addToCart (till\<lparr>qtyInput := 4\<rparr>)) = till\<lparr>qtyInput := 4\<rparr>"
    using addToCart_merges [of "till\<lparr>qtyInput := 4\<rparr>" soap 0] s4 f4 g by blast
  show ?thesis using s f a g b by (intro conjI)
qed

text \<open>
  C9. On every rejection path of \<open>addToCart\<close> (no product selected, entered quantity
  not positive, entered quantity above the stock, merged quantity above the stock; in
  general whenever it raises an alert) the whole terminal state, the cart included, is
  the state before the call. \<open>handleCheckout\<close> on an empty cart does not call
  \<open>onCompleteSale\<close> and leaves the state unchanged.
\<close>

theorem rejections_keep_state:
  "(selectedProduct st = None \<longrightarrow> addToCart st = (st, [])) \<and>
   (selectedProduct st = Some p \<and> qtyInput st \<le> 0 \<longrightarrow> fst (addToCart st) = st) \<and>
   (selectedProduct st = Some p \<and> qtyInput st > InventoryItem.quantity p \<longrightarrow> fst (addToCart st) = st) \<and>
   (selectedProduct st = Some p \<and>
    findIndex (\<lambda>item. itemId item = InventoryItem.id p) (cart st) = Some i \<and>
    SaleItem.quantity (cart st ! i) + qtyInput st > InventoryItem.quantity p \<longrightarrow> fst (addToCart st) = st) \<and>
   (snd (addToCart st) \<noteq> [] \<longrightarrow> fst (addToCart st) = st) \<and>
   (cart st = [] \<longrightarrow> handleCheckout st = (st, []))"
proof (intro conjI impI)
  show "addToCart st = (st, [])" if "selectedProduct st = None"
    using that by (simp add: addToCart_def)
  show "fst (addToCart st) = st" if "selectedProduct st = Some p \<and> qtyInput st \<le> 0"
    using that by (simp add: addToCart_def)
  show "fst (addToCart st) = st" if "selectedProduct st = Some p \<and> qtyInput st > InventoryItem.quantity p"
    using that by (simp add: addToCart_def)
  show "fst (addToCart st) = st"
    if "selectedProduct st = Some p \<and>
        findIndex (\<lambda>item. itemId item = InventoryItem.id p) (cart st) = Some i \<and>
        SaleItem.quantity (cart st ! i) + qtyInput st > InventoryItem.quantity p"
    using that by (simp add: addToCart_def)
  show "fst (addToCart st) = st" if h: "snd (addToCart st) \<noteq> []"
  proof (cases "selectedProduct st")
    case None
    then show ?thesis by (simp add: addToCart_def)
  next
    case (Some p')
    show ?thesis
    proof (cases "qtyInput st \<le> 0 \<or> qtyInput st > InventoryItem.quantity p'")
      case True
      then show ?thesis using Some by (auto simp add: addToCart_def)
    next
      case False
      show ?thesis
      proof (cases "findIndex (\<lambda>item. itemId item = InventoryItem.id p') (cart st)")
        case None
        then have "snd (addToCart st) = []" using Some False by (simp add: addToCart_def Let_def)
        then show ?thesis using h by simp
      next
        case (Some i')
        show ?thesis
        proof (cases "SaleItem.quantity (cart st ! i') + qtyInput st > InventoryItem.quantity p'")
          case True
          then show ?thesis using \<open>selectedProduct st = Some p'\<close> False Some
            by (simp add: addToCart_def)
        next
          case nope: False
          then have "snd (addToCart st) = []"
            using \<open>selectedProduct st = Some p'\<close> False Some by (simp add: addToCart_def Let_def)
          then show ?thesis using h by simp
        qed
      qed
    qed
  qed
  show "handleCheckout st = (st, [])" if "cart st = []"
    using that by (simp add: handleCheckout_def)
qed

theorem rejections_keep_state_witness:
  "selectedProduct (till\<lparr>selectedProduct := None\<rparr>) = None \<and>
   addToCart (till\<lparr>selectedProduct := None\<rparr>) = (till\<lparr>selectedProduct := None\<rparr>, []) \<and>
   (selectedProduct (till\<lparr>qtyInput := 0\<rparr>) = Some soap \<and> qtyInput (till\<lparr>qtyInput := 0\<rparr>) \<le> 0) \<and>
   fst (addToCart (till\<lparr>qtyInput := 0\<rparr>)) = till\<lparr>qtyInput := 0\<rparr> \<and>
   (selectedProduct (till\<lparr>qtyInput := 6\<rparr>) = Some soap \<and>
    qtyInput (till\<lparr>qtyInput := 6\<rparr>) > InventoryItem.quantity soap) \<and>
   fst (addToCart (till\<lparr>qtyInput := 6\<rparr>)) = till\<lparr>qtyInput := 6\<rparr> \<and>
   snd (addToCart (till\<lparr>qtyInput := 4\<rparr>)) \<noteq> [] \<and>
   fst (addToCart (till\<lparr>qtyInput := 4\<rparr>)) = till\<lparr>qtyInput := 4\<rparr> \<and>
   cart (till\<lparr>cart := []\<rparr>) = [] \<and>
   handleCheckout (till\<lparr>cart := []\<rparr>) = (till\<lparr>cart := []\<rparr>, [])"
proof -
  have a0: "selectedProduct (till\<lparr>selectedProduct := None\<rparr>) = None"
    by simp
  have a: "addToCart (till\<lparr>selectedProduct := None\<rparr>) = (till\<lparr>selectedProduct := None\<rparr>, [])"
    using rejections_keep_state [of "till\<lparr>selectedProduct := None\<rparr>" soap 0] a0 by blast
  have b0: "selectedProduct (till\<lparr>qtyInput := 0\<rparr>) = Some soap \<and> qtyInput (till\<lparr>qtyInput := 0\<rparr>) \<le> 0"
    by (simp add: till_def)
  have b: "fst (addToCart (till\<lparr>qtyInput := 0\<rparr>)) = till\<lparr>qtyInput := 0\<rparr>"
    using rejections_keep_state [of "till\<lparr>qtyInput := 0\<rparr>" soap 0] b0 by blast
  have c0: "selectedProduct (till\<lparr>qtyInput := 6\<rparr>) = Some soap \<and>
    qtyInput (till\<lparr>qtyInput := 6\<rparr>) > InventoryItem.quantity soap"
    by (simp add: till_def soap_def)
  have c: "fst (addToCart (till\<lparr>qtyInput := 6\<rparr>)) = till\<lparr>qtyInput := 6\<rparr>"
    using rejections_keep_state [of "till\<lparr>qtyInput := 6\<rparr>" soap 0] c0 by blast
  have d0: "snd (addToCart (till\<lparr>qtyInput := 4\<rparr>)) \<noteq> []"
    by (simp add: addToCart_def till_def soap_def soapLine_def)
  have d: "fst (addToCart (till\<lparr>qtyInput := 4\<rparr>)) = till\<lparr>qtyInput := 4\<rparr>"
    using rejections_keep_state [of "till\<lparr>qtyInput := 4\<rparr>" soap 0] d0 by blast
  have e0: "cart (till\<lparr>cart := []\<rparr>) = []"
    by simp
  have e: "handleCheckout (till\<lparr>cart := []\<rparr>) = (till\<lparr>cart := []\<rparr>, [])"
    using rejections_keep_state [of "till\<lparr>cart := []\<rparr>" soap 0] e0 by blast
  show ?thesis using a0 a b0 b c0 c d0 d e0 e by blast
qed

section \<open>Financial aggregation\<close>

lemma map_of_ensureKey:
  "map_of (ensureKey key m) = (case map_of m key of None \<Rightarrow> (map_of m)(key \<mapsto> emptyPoint key) | Some b \<Rightarrow> map_of m)"
  by (auto simp: ensureKey_def update_conv' split: option.splits)

lemma distinct_ensureKey: "distinct (map fst m) \<Longrightarrow> distinct (map fst (ensureKey key m))"
  by (simp add: ensureKey_def distinct_update)

lemma filter_no_key: "k \<notin> f ` set xs \<Longrightarrow> filter (\<lambda>x. f x = k) xs = []"
  by (induction xs) auto

lemma pointOf_fresh:
  "k \<notin> saleKey ` set ss \<Longrightarrow> k \<notin> expenseKey ` set es \<Longrightarrow> pointOf ar k ss es = emptyPoint k"
  by (simp add: pointOf_def emptyPoint_def filter_no_key directTotal_def)

lemma pointOf_sale:
  "pointOf ar k (ss @ [s]) [] =
     (if saleKey s = k
      then (pointOf ar k ss [])\<lparr>revenue := add ar (revenue (pointOf ar k ss [])) (totalAmount s),
              grossProfit := add ar (grossProfit (pointOf ar k ss [])) (totalProfit s),
              ChartPoint.discount := add ar (ChartPoint.discount (pointOf ar k ss []))
                (foldl (\<lambda>sum i. add ar sum (case SaleItem.discount i of Some d \<Rightarrow> d | None \<Rightarrow> 0))
                   0 (items s)),
              ChartPoint.netIncome := add ar (ChartPoint.netIncome (pointOf ar k ss [])) (totalProfit s)\<rparr>
      else pointOf ar k ss [])"
  by (simp add: pointOf_def directTotal_def)

lemma pointOf_expense:
  "pointOf ar k ss (es @ [e]) =
     (if expenseKey e = k
      then (pointOf ar k ss es)\<lparr>expense := add ar (expense (pointOf ar k ss es)) (amount e),
              ChartPoint.netIncome := subtract ar (ChartPoint.netIncome (pointOf ar k ss es)) (amount e)\<rparr>
      else pointOf ar k ss es)"
  by (simp add: pointOf_def directTotal_def)

lemma charted_processSale:
  assumes c: "charted ar ss [] m"
  shows "charted ar (ss @ [s]) [] (processSale ar m s)"
proof -
  let ?key = "getDateKey (timestamp s)"
  let ?m1 = "ensureKey ?key m"
  let ?p = "pointOf ar ?key ss []"
  have d: "distinct (map fst m)" using c by (simp add: charted_def)
  have mo: "\<And>k. map_of m k = (if k \<in> saleKey ` set ss then Some (pointOf ar k ss []) else None)"
    using c by (simp add: charted_def)
  have cur: "map_of ?m1 ?key = Some ?p"
  proof (cases "?key \<in> saleKey ` set ss")
    case True
    then show ?thesis using mo[of ?key] by (simp add: map_of_ensureKey)
  next
    case False
    then show ?thesis using mo[of ?key] by (simp add: map_of_ensureKey pointOf_fresh)
  qed
  have ps: "processSale ar m s =
      AList.update ?key
        (?p\<lparr>revenue := add ar (revenue ?p) (totalAmount s),
              grossProfit := add ar (grossProfit ?p) (totalProfit s),
              ChartPoint.discount := add ar (ChartPoint.discount ?p)
                (foldl (\<lambda>sum i. add ar sum (case SaleItem.discount i of Some d \<Rightarrow> d | None \<Rightarrow> 0))
                   0 (items s)),
              ChartPoint.netIncome := add ar (ChartPoint.netIncome ?p) (totalProfit s)\<rparr>) ?m1"
    using cur by (simp add: processSale_def Let_def)
  have "distinct (map fst (processSale ar m s))"
    unfolding ps using d by (simp add: distinct_update distinct_ensureKey)
  moreover have "map_of (processSale ar m s) k =
      (if k \<in> saleKey ` set (ss @ [s]) \<union> expenseKey ` set []
       then Some (pointOf ar k (ss @ [s]) []) else None)" for k
  proof (cases "k = ?key")
    case True
    then show ?thesis unfolding ps by (simp add: update_conv' pointOf_sale saleKey_def)
  next
    case False
    then have "map_of (processSale ar m s) k = map_of m k"
      unfolding ps by (simp add: update_conv' map_of_ensureKey split: option.splits)
    then show ?thesis using False mo[of k] by (auto simp add: pointOf_sale saleKey_def)
  qed
  ultimately show ?thesis by (simp add: charted_def)
qed

lemma charted_processExpense:
  assumes c: "charted ar ss es m"
  shows "charted ar ss (es @ [e]) (processExpense ar m e)"
proof -
  let ?key = "getDateKey (ExpenseRecord.date e)"
  let ?m1 = "ensureKey ?key m"
  let ?p = "pointOf ar ?key ss es"
  have d: "distinct (map fst m)" using c by (simp add: charted_def)
  have mo: "\<And>k. map_of m k =
      (if k \<in> saleKey ` set ss \<union> expenseKey ` set es then Some (pointOf ar k ss es) else None)"
    using c by (simp add: charted_def)
  have cur: "map_of ?m1 ?key = Some ?p"
  proof (cases "?key \<in> saleKey ` set ss \<union> expenseKey ` set es")
    case True
    then show ?thesis using mo[of ?key] by (simp add: map_of_ensureKey)
  next
    case False
    then show ?thesis using mo[of ?key] by (simp add: map_of_ensureKey pointOf_fresh)
  qed
  have ps: "processExpense ar m e =
      AList.update ?key
        (?p\<lparr>expense := add ar (expense ?p) (amount e),
              ChartPoint.netIncome := subtract ar (ChartPoint.netIncome ?p) (amount e)\<rparr>) ?m1"
    using cur by (simp add: processExpense_def Let_def)
  have "distinct (map fst (processExpense ar m e))"
    unfolding ps using d by (simp add: distinct_update distinct_ensureKey)
  moreover have "map_of (processExpense ar m e) k =
      (if k \<in> saleKey ` set ss \<union> expenseKey ` set (es @ [e])
       then Some (pointOf ar k ss (es @ [e])) else None)" for k
  proof (cases "k = ?key")
    case True
    then show ?thesis unfolding ps by (simp add: update_conv' pointOf_expense expenseKey_def)
  next
    case False
    then have "map_of (processExpense ar m e) k = map_of m k"
      unfolding ps by (simp add: update_conv' map_of_ensureKey split: option.splits)
    then show ?thesis using False mo[of k] by (auto simp add: pointOf_expense expenseKey_def)
  qed
  ultimately show ?thesis by (simp add: charted_def)
qed

lemma charted_sales: "charted ar ss [] (foldl (processSale ar) [] ss)"
proof (induction ss rule: rev_induct)
  case Nil
  show ?case by (simp add: charted_def)
next
  case (snoc s ss)
  then show ?case using charted_processSale by simp
qed

lemma charted_dataMapOf: "charted ar ss es (dataMapOf ar ss es)"
  unfolding dataMapOf_def
proof (induction es rule: rev_induct)
  case Nil
  show ?case using charted_sales by simp
next
  case (snoc e es)
  then show ?case using charted_processExpense by simp
qed

lemma set_insertBy: "set (insertBy cmp x ys) = insert x (set ys)"
  by (induction ys) auto

lemma sum_list_insertBy:
  fixes f :: "'a \<Rightarrow> number"
  shows "sum_list (map f (insertBy cmp x ys)) = f x + sum_list (map f ys)"
  by (induction ys) auto

lemma distinct_map_insertBy:
  "distinct (map g (insertBy cmp x ys)) \<longleftrightarrow> g x \<notin> g ` set ys \<and> distinct (map g ys)"
  by (induction ys) (auto simp: set_insertBy)

lemma sortBy_Cons: "sortBy cmp (x # xs) = insertBy cmp x (sortBy cmp xs)"
  by (simp add: sortBy_def)

lemma set_sortBy: "set (sortBy cmp xs) = set xs"
  by (induction xs) (simp_all add: sortBy_Cons set_insertBy, simp add: sortBy_def)

lemma sum_list_sortBy:
  fixes f :: "'a \<Rightarrow> number"
  shows "sum_list (map f (sortBy cmp xs)) = sum_list (map f xs)"
  by (induction xs) (simp_all add: sortBy_Cons sum_list_insertBy, simp add: sortBy_def)

lemma distinct_map_sortBy: "distinct (map g (sortBy cmp xs)) \<longleftrightarrow> distinct (map g xs)"
  by (induction xs) (simp_all add: sortBy_Cons distinct_map_insertBy set_sortBy, simp add: sortBy_def)

lemma length_insertBy: "length (insertBy cmp x ys) = Suc (length ys)"
  by (induction ys) auto

lemma length_sortBy: "length (sortBy cmp xs) = length xs"
  by (induction xs) (simp_all add: sortBy_Cons length_insertBy, simp add: sortBy_def)

text \<open>Sums over the association list, in exact arithmetic.\<close>

lemma sum_update_present:
  fixes f :: "ChartPoint \<Rightarrow> number"
  assumes "map_of m k = Some c"
  shows "sum_list (map (\<lambda>kb. f (snd kb)) (AList.update k v m)) =
         sum_list (map (\<lambda>kb. f (snd kb)) m) - f c + f v"
  using assms by (induction m) (auto split: if_splits)

lemma sum_update_absent:
  fixes f :: "ChartPoint \<Rightarrow> number"
  assumes "map_of m k = None"
  shows "sum_list (map (\<lambda>kb. f (snd kb)) (AList.update k v m)) =
         sum_list (map (\<lambda>kb. f (snd kb)) m) + f v"
  using assms by (induction m) (auto split: if_splits)

lemma ensureKey_present: "\<exists>c. map_of (ensureKey key m) key = Some c"
  by (cases "map_of m key") (simp_all add: map_of_ensureKey)

lemma sum_ensureKey:
  fixes f :: "ChartPoint \<Rightarrow> number"
  assumes "f (emptyPoint key) = 0"
  shows "sum_list (map (\<lambda>kb. f (snd kb)) (ensureKey key m)) = sum_list (map (\<lambda>kb. f (snd kb)) m)"
  using assms by (simp add: ensureKey_def sum_update_absent)

lemma sums_processSale:
  "sum_list (map (\<lambda>kb. revenue (snd kb)) (processSale exact m s)) =
     sum_list (map (\<lambda>kb. revenue (snd kb)) m) + totalAmount s"
  "sum_list (map (\<lambda>kb. grossProfit (snd kb)) (processSale exact m s)) =
     sum_list (map (\<lambda>kb. grossProfit (snd kb)) m) + totalProfit s"
  "sum_list (map (\<lambda>kb. expense (snd kb)) (processSale exact m s)) =
     sum_list (map (\<lambda>kb. expense (snd kb)) m)"
proof -
  let ?key = "getDateKey (timestamp s)"
  obtain c where c: "map_of (ensureKey ?key m) ?key = Some c"
    using ensureKey_present by blast
  show "sum_list (map (\<lambda>kb. revenue (snd kb)) (processSale exact m s)) =
     sum_list (map (\<lambda>kb. revenue (snd kb)) m) + totalAmount s"
    using c by (simp add: processSale_def Let_def exact_def sum_update_present[OF c] sum_ensureKey emptyPoint_def)
  show "sum_list (map (\<lambda>kb. grossProfit (snd kb)) (processSale exact m s)) =
     sum_list (map (\<lambda>kb. grossProfit (snd kb)) m) + totalProfit s"
    using c by (simp add: processSale_def Let_def exact_def sum_update_present[OF c] sum_ensureKey emptyPoint_def)
  show "sum_list (map (\<lambda>kb. expense (snd kb)) (processSale exact m s)) =
     sum_list (map (\<lambda>kb. expense (snd kb)) m)"
    using c by (simp add: processSale_def Let_def exact_def sum_update_present[OF c] sum_ensureKey emptyPoint_def)
qed

lemma sums_processExpense:
  "sum_list (map (\<lambda>kb. revenue (snd kb)) (processExpense exact m e)) =
     sum_list (map (\<lambda>kb. revenue (snd kb)) m)"
  "sum_list (map (\<lambda>kb. grossProfit (snd kb)) (processExpense exact m e)) =
     sum_list (map (\<lambda>kb. grossProfit (snd kb)) m)"
  "sum_list (map (\<lambda>kb. expense (snd kb)) (processExpense exact m e)) =
     sum_list (map (\<lambda>kb. expense (snd kb)) m) + amount e"
proof -
  let ?key = "getDateKey (ExpenseRecord.date e)"
  obtain c where c: "map_of (ensureKey ?key m) ?key = Some c"
    using ensureKey_present by blast
  show "sum_list (map (\<lambda>kb. revenue (snd kb)) (processExpense exact m e)) =
     sum_list (map (\<lambda>kb. revenue (snd kb)) m)"
    using c by (simp add: processExpense_def Let_def exact_def sum_update_present[OF c] sum_ensureKey emptyPoint_def)
  show "sum_list (map (\<lambda>kb. grossProfit (snd kb)) (processExpense exact m e)) =
     sum_list (map (\<lambda>kb. grossProfit (snd kb)) m)"
    using c by (simp add: processExpense_def Let_def exact_def sum_update_present[OF c] sum_ensureKey emptyPoint_def)
  show "sum_list (map (\<lambda>kb. expense (snd kb)) (processExpense exact m e)) =
     sum_list (map (\<lambda>kb. expense (snd kb)) m) + amount e"
    using c by (simp add: processExpense_def Let_def exact_def sum_update_present[OF c] sum_ensureKey emptyPoint_def)
qed

lemma sums_sales:
  "sum_list (map (\<lambda>kb. revenue (snd kb)) (foldl (processSale exact) [] ss)) = (\<Sum>s\<leftarrow>ss. totalAmount s)"
  "sum_list (map (\<lambda>kb. grossProfit (snd kb)) (foldl (processSale exact) [] ss)) = (\<Sum>s\<leftarrow>ss. totalProfit s)"
  "sum_list (map (\<lambda>kb. expense (snd kb)) (foldl (processSale exact) [] ss)) = 0"
  by (induction ss rule: rev_induct) (simp_all add: sums_processSale)

lemma sums_dataMapOf:
  "sum_list (map (\<lambda>kb. revenue (snd kb)) (dataMapOf exact ss es)) = (\<Sum>s\<leftarrow>ss. totalAmount s)"
  "sum_list (map (\<lambda>kb. grossProfit (snd kb)) (dataMapOf exact ss es)) = (\<Sum>s\<leftarrow>ss. totalProfit s)"
  "sum_list (map (\<lambda>kb. expense (snd kb)) (dataMapOf exact ss es)) = (\<Sum>e\<leftarrow>es. amount e)"
  unfolding dataMapOf_def
  by (induction es rule: rev_induct) (simp_all add: sums_processExpense sums_sales)

lemma sums_chartData:
  "(\<Sum>b\<leftarrow>chartData exact cmp ss es. revenue b) = (\<Sum>s\<leftarrow>ss. totalAmount s)"
  "(\<Sum>b\<leftarrow>chartData exact cmp ss es. grossProfit b) = (\<Sum>s\<leftarrow>ss. totalProfit s)"
  "(\<Sum>b\<leftarrow>chartData exact cmp ss es. expense b) = (\<Sum>e\<leftarrow>es. amount e)"
  using sums_dataMapOf[of ss es]
  by (simp_all add: chartData_def sum_list_sortBy comp_def)

lemma metrics_totals:
  "totalRevenue (metrics ss es stock) = (\<Sum>s\<leftarrow>ss. totalAmount s)"
  "totalGrossProfit (metrics ss es stock) = (\<Sum>s\<leftarrow>ss. totalProfit s)"
  "totalExpenses (metrics ss es stock) = (\<Sum>e\<leftarrow>es. amount e)"
  "Metrics.netIncome (metrics ss es stock) =
     totalGrossProfit (metrics ss es stock) - totalExpenses (metrics ss es stock)"
  by (simp_all add: metrics_def Let_def foldl_add_sum_list)

lemma directTotal_exact: "directTotal exact f xs = (\<Sum>x\<leftarrow>xs. f x)"
  by (simp add: directTotal_def exact_def foldl_add_sum_list)

lemma chartData_points:
  assumes "b \<in> set (chartData ar cmp ss es)"
  shows "ChartPoint.date b \<in> saleKey ` set ss \<union> expenseKey ` set es \<and>
         b = pointOf ar (ChartPoint.date b) ss es"
proof -
  have c: "charted ar ss es (dataMapOf ar ss es)" by (rule charted_dataMapOf)
  from assms obtain k where k: "(k, b) \<in> set (dataMapOf ar ss es)"
    by (auto simp: chartData_def set_sortBy)
  have d: "distinct (map fst (dataMapOf ar ss es))" using c by (simp add: charted_def)
  have "map_of (dataMapOf ar ss es) k = Some b" using k d by simp
  then have kb: "k \<in> saleKey ` set ss \<union> expenseKey ` set es" "b = pointOf ar k ss es"
    using c by (auto simp: charted_def split: if_splits)
  then have "ChartPoint.date b = k" by (simp add: pointOf_def)
  then show ?thesis using kb by simp
qed

lemma chartData_dates:
  "map ChartPoint.date (map snd (dataMapOf ar ss es)) = map fst (dataMapOf ar ss es)"
proof -
  have c: "charted ar ss es (dataMapOf ar ss es)" by (rule charted_dataMapOf)
  have "\<forall>kb\<in>set (dataMapOf ar ss es). ChartPoint.date (snd kb) = fst kb"
  proof
    fix kb assume h: "kb \<in> set (dataMapOf ar ss es)"
    obtain k b where e: "kb = (k, b)" by (cases kb)
    have d: "distinct (map fst (dataMapOf ar ss es))" using c by (simp add: charted_def)
    have "map_of (dataMapOf ar ss es) k = Some b" using h e d by simp
    then have "b = pointOf ar k ss es" using c by (auto simp: charted_def split: if_splits)
    then show "ChartPoint.date (snd kb) = fst kb" using e by (simp add: pointOf_def)
  qed
  then show ?thesis by simp
qed

lemma chartData_keys:
  "distinct (map ChartPoint.date (chartData ar cmp ss es))"
  "set (map ChartPoint.date (chartData ar cmp ss es)) = saleKey ` set ss \<union> expenseKey ` set es"
proof -
  have c: "charted ar ss es (dataMapOf ar ss es)" by (rule charted_dataMapOf)
  have d: "distinct (map fst (dataMapOf ar ss es))" using c by (simp add: charted_def)
  have "distinct (map ChartPoint.date (map snd (dataMapOf ar ss es)))"
    using d by (simp only: chartData_dates)
  then show "distinct (map ChartPoint.date (chartData ar cmp ss es))"
    by (simp only: chartData_def distinct_map_sortBy)
  have "set (map fst (dataMapOf ar ss es)) = dom (map_of (dataMapOf ar ss es))"
    by (simp add: dom_map_of_conv_image_fst)
  also have "\<dots> = saleKey ` set ss \<union> expenseKey ` set es"
    using c by (auto simp: charted_def dom_def split: if_splits)
  finally have "set (map fst (dataMapOf ar ss es)) = saleKey ` set ss \<union> expenseKey ` set es" .
  moreover have "set (map ChartPoint.date (chartData ar cmp ss es)) =
      set (map ChartPoint.date (map snd (dataMapOf ar ss es)))"
    by (simp only: chartData_def set_map set_sortBy)
  ultimately show "set (map ChartPoint.date (chartData ar cmp ss es)) = saleKey ` set ss \<union> expenseKey ` set es"
    by (simp only: chartData_dates)
qed

text \<open>
  C3. For every arithmetic, comparator and lists of filtered sales and
  expenses: the days of the chart are distinct; every sale and every expense has exactly
  one bucket whose day is the date part of its timestamp or date; each bucket holds the
  running sums, in that arithmetic, of the records of its day (\<open>pointOf\<close>). In exact
  arithmetic the revenue, the expense and the gross profit summed over the buckets are
  the totals of \<open>metrics\<close>, which are the direct reduces over the same records.
\<close>

theorem buckets_partition_records:
  "distinct (map ChartPoint.date (chartData ar cmp fs fe)) \<and>
   (\<forall>s\<in>set fs. \<exists>!b. b \<in> set (chartData ar cmp fs fe) \<and> ChartPoint.date b = getDateKey (timestamp s)) \<and>
   (\<forall>e\<in>set fe. \<exists>!b. b \<in> set (chartData ar cmp fs fe) \<and>
                       ChartPoint.date b = getDateKey (ExpenseRecord.date e)) \<and>
   (\<forall>b\<in>set (chartData ar cmp fs fe). b = pointOf ar (ChartPoint.date b) fs fe) \<and>
   (\<Sum>b\<leftarrow>chartData exact cmp fs fe. revenue b) = totalRevenue (metrics fs fe stock) \<and>
   (\<Sum>b\<leftarrow>chartData exact cmp fs fe. expense b) = totalExpenses (metrics fs fe stock) \<and>
   (\<Sum>b\<leftarrow>chartData exact cmp fs fe. grossProfit b) = totalGrossProfit (metrics fs fe stock) \<and>
   totalRevenue (metrics fs fe stock) = directTotal exact totalAmount fs \<and>
   totalExpenses (metrics fs fe stock) = directTotal exact amount fe \<and>
   totalGrossProfit (metrics fs fe stock) = directTotal exact totalProfit fs"
proof -
  let ?cd = "chartData ar cmp fs fe"
  have pts: "\<forall>b\<in>set ?cd. b = pointOf ar (ChartPoint.date b) fs fe"
    using chartData_points by blast
  have uniq: "\<exists>!b. b \<in> set ?cd \<and> ChartPoint.date b = k"
    if k: "k \<in> saleKey ` set fs \<union> expenseKey ` set fe" for k
  proof -
    have "k \<in> set (map ChartPoint.date ?cd)" using k by (simp only: chartData_keys(2))
    then obtain b where b: "b \<in> set ?cd" "ChartPoint.date b = k" by auto
    show ?thesis
    proof (rule ex1I[of _ b])
      show "b \<in> set ?cd \<and> ChartPoint.date b = k" using b by simp
    next
      fix b' assume "b' \<in> set ?cd \<and> ChartPoint.date b' = k"
      then have "b' = pointOf ar k fs fe" using pts by auto
      moreover have "b = pointOf ar k fs fe" using pts b by auto
      ultimately show "b' = b" by simp
    qed
  qed
  have s: "\<forall>s\<in>set fs. \<exists>!b. b \<in> set ?cd \<and> ChartPoint.date b = getDateKey (timestamp s)"
  proof
    fix s assume "s \<in> set fs"
    then have "getDateKey (timestamp s) \<in> saleKey ` set fs \<union> expenseKey ` set fe"
      by (auto simp: saleKey_def)
    then show "\<exists>!b. b \<in> set ?cd \<and> ChartPoint.date b = getDateKey (timestamp s)" by (rule uniq)
  qed
  have e: "\<forall>e\<in>set fe. \<exists>!b. b \<in> set ?cd \<and> ChartPoint.date b = getDateKey (ExpenseRecord.date e)"
  proof
    fix e assume "e \<in> set fe"
    then have "getDateKey (ExpenseRecord.date e) \<in> saleKey ` set fs \<union> expenseKey ` set fe"
      by (auto simp: expenseKey_def)
    then show "\<exists>!b. b \<in> set ?cd \<and> ChartPoint.date b = getDateKey (ExpenseRecord.date e)" by (rule uniq)
  qed
  have d: "distinct (map ChartPoint.date ?cd)" by (rule chartData_keys(1))
  have t1: "(\<Sum>b\<leftarrow>chartData exact cmp fs fe. revenue b) = totalRevenue (metrics fs fe stock)"
    by (simp only: sums_chartData metrics_totals)
  have t2: "(\<Sum>b\<leftarrow>chartData exact cmp fs fe. expense b) = totalExpenses (metrics fs fe stock)"
    by (simp only: sums_chartData metrics_totals)
  have t3: "(\<Sum>b\<leftarrow>chartData exact cmp fs fe. grossProfit b) = totalGrossProfit (metrics fs fe stock)"
    by (simp only: sums_chartData metrics_totals)
  have m1: "totalRevenue (metrics fs fe stock) = directTotal exact totalAmount fs"
    by (simp only: metrics_totals directTotal_exact)
  have m2: "totalExpenses (metrics fs fe stock) = directTotal exact amount fe"
    by (simp only: metrics_totals directTotal_exact)
  have m3: "totalGrossProfit (metrics fs fe stock) = directTotal exact totalProfit fs"
    by (simp only: metrics_totals directTotal_exact)
  show ?thesis using d s e pts t1 t2 t3 m1 m2 m3 by (intro conjI)
qed

lemma chartData_sample:
  "chartData exact byCodeUnit [morningSale, eveningSale, earlierSale] [rent] =
     [\<lparr>date = ''2024-03-01'', revenue = 2, expense = 5, grossProfit = 1, netIncome = - 4, discount = 0\<rparr>,
      \<lparr>date = ''2024-03-02'', revenue = 18, expense = 0, grossProfit = 6, netIncome = 6, discount = 0\<rparr>]"
  by code_simp

theorem buckets_partition_records_witness:
  "morningSale \<in> set [morningSale, eveningSale, earlierSale] \<and>
   (\<exists>!b. b \<in> set (chartData exact byCodeUnit [morningSale, eveningSale, earlierSale] [rent]) \<and>
         ChartPoint.date b = ''2024-03-02'') \<and>
   rent \<in> set [rent] \<and>
   (\<exists>!b. b \<in> set (chartData exact byCodeUnit [morningSale, eveningSale, earlierSale] [rent]) \<and>
         ChartPoint.date b = ''2024-03-01'') \<and>
   \<lparr>date = ''2024-03-02'', revenue = 18, expense = 0, grossProfit = 6, netIncome = 6, discount = 0\<rparr>
     \<in> set (chartData exact byCodeUnit [morningSale, eveningSale, earlierSale] [rent]) \<and>
   \<lparr>date = ''2024-03-02'', revenue = 18, expense = 0, grossProfit = 6, netIncome = 6, discount = 0\<rparr>
     = pointOf exact ''2024-03-02'' [morningSale, eveningSale, earlierSale] [rent] \<and>
   (\<Sum>b\<leftarrow>chartData exact byCodeUnit [morningSale, eveningSale, earlierSale] [rent]. revenue b) = 20"
proof -
  let ?fs = "[morningSale, eveningSale, earlierSale]"
  let ?p = "\<lparr>date = ''2024-03-02'', revenue = 18, expense = 0, grossProfit = 6, netIncome = 6, discount = 0\<rparr>"
  note t = buckets_partition_records [of exact byCodeUnit ?fs "[rent]" "[soap]"]
  have m: "morningSale \<in> set ?fs" by simp
  have r: "rent \<in> set [rent]" by simp
  have km: "getDateKey (timestamp morningSale) = ''2024-03-02''"
    by (simp add: getDateKey_def morningSale_def)
  have kr: "getDateKey (ExpenseRecord.date rent) = ''2024-03-01''"
    by (simp add: getDateKey_def rent_def)
  have u1: "\<exists>!b. b \<in> set (chartData exact byCodeUnit ?fs [rent]) \<and> ChartPoint.date b = ''2024-03-02''"
    using t [THEN conjunct2, THEN conjunct1] m km by metis
  have u2: "\<exists>!b. b \<in> set (chartData exact byCodeUnit ?fs [rent]) \<and> ChartPoint.date b = ''2024-03-01''"
    using t [THEN conjunct2, THEN conjunct2, THEN conjunct1] r kr by metis
  have i: "?p \<in> set (chartData exact byCodeUnit ?fs [rent])"
    by (simp only: chartData_sample) simp
  have "?p = pointOf exact (ChartPoint.date ?p) ?fs [rent]"
    using t [THEN conjunct2, THEN conjunct2, THEN conjunct2, THEN conjunct1] i by blast
  then have e: "?p = pointOf exact ''2024-03-02'' ?fs [rent]" by simp
  have "totalRevenue (metrics ?fs [rent] [soap]) = 20"
    by (simp add: metrics_def Let_def morningSale_def eveningSale_def earlierSale_def)
  then have v: "(\<Sum>b\<leftarrow>chartData exact byCodeUnit ?fs [rent]. revenue b) = 20"
    using t [THEN conjunct2, THEN conjunct2, THEN conjunct2, THEN conjunct2, THEN conjunct1] by simp
  show ?thesis using m u1 r u2 i e v by (intro conjI)
qed

text \<open>
  C3 without the restriction to exact arithmetic fails, in the arithmetic of the
  program. Sales of 0.1 on one day
  and of 0.2 and 0.3 on the next give buckets of 0.1 and 0.5, which sum to 0.6, while the
  direct reduce over the three sales gives 0.6000000000000001.
\<close>

theorem bucket_sums_differ_in_binary64:
  "map revenue (chartData binary64 byCodeUnit [tenthSale, fifthSale, threeTenthsSale] []) =
     [3602879701896397 / 2 ^ 55, 1 / 2] \<and>
   foldl (add binary64) 0 (map revenue (chartData binary64 byCodeUnit [tenthSale, fifthSale, threeTenthsSale] [])) =
     5404319552844595 / 2 ^ 53 \<and>
   directTotal binary64 totalAmount [tenthSale, fifthSale, threeTenthsSale] = 5404319552844596 / 2 ^ 53 \<and>
   foldl (add binary64) 0 (map revenue (chartData binary64 byCodeUnit [tenthSale, fifthSale, threeTenthsSale] [])) \<noteq>
     directTotal binary64 totalAmount [tenthSale, fifthSale, threeTenthsSale] \<and>
   (\<Sum>b\<leftarrow>chartData binary64 byCodeUnit [tenthSale, fifthSale, threeTenthsSale] []. revenue b) \<noteq>
     directTotal binary64 totalAmount [tenthSale, fifthSale, threeTenthsSale]"
  by code_simp

section \<open>Margins\<close>

text \<open>
  C8. The totals of \<open>metrics\<close> are the sums over the filtered records. When the total
  revenue is positive, the gross margin, the net margin and the expense ratio are the
  gross profit, the net income and the expenses divided by the revenue, times 100. When
  the revenue is 0, as for an empty range, each of them is 0. In every case each of them
  is a number: the division is never done with divisor 0.
\<close>

theorem margins_guarded:
  "totalRevenue (metrics fs fe stock) = (\<Sum>s\<leftarrow>fs. totalAmount s) \<and>
   totalGrossProfit (metrics fs fe stock) = (\<Sum>s\<leftarrow>fs. totalProfit s) \<and>
   totalExpenses (metrics fs fe stock) = (\<Sum>e\<leftarrow>fe. amount e) \<and>
   Metrics.netIncome (metrics fs fe stock) =
     totalGrossProfit (metrics fs fe stock) - totalExpenses (metrics fs fe stock) \<and>
   (totalRevenue (metrics fs fe stock) > 0 \<longrightarrow>
      grossMargin (metrics fs fe stock) =
        Some (totalGrossProfit (metrics fs fe stock) / totalRevenue (metrics fs fe stock) * 100) \<and>
      netMargin (metrics fs fe stock) =
        Some (Metrics.netIncome (metrics fs fe stock) / totalRevenue (metrics fs fe stock) * 100) \<and>
      expenseRatio (metrics fs fe stock) =
        Some (totalExpenses (metrics fs fe stock) / totalRevenue (metrics fs fe stock) * 100)) \<and>
   (totalRevenue (metrics fs fe stock) = 0 \<longrightarrow>
      grossMargin (metrics fs fe stock) = Some 0 \<and>
      netMargin (metrics fs fe stock) = Some 0 \<and>
      expenseRatio (metrics fs fe stock) = Some 0) \<and>
   grossMargin (metrics [] [] stock) = Some 0 \<and>
   netMargin (metrics [] [] stock) = Some 0 \<and>
   expenseRatio (metrics [] [] stock) = Some 0 \<and>
   grossMargin (metrics fs fe stock) \<noteq> None \<and>
   netMargin (metrics fs fe stock) \<noteq> None \<and>
   expenseRatio (metrics fs fe stock) \<noteq> None"
proof -
  have pos: "totalRevenue (metrics fs fe stock) > 0 \<longrightarrow>
      grossMargin (metrics fs fe stock) =
        Some (totalGrossProfit (metrics fs fe stock) / totalRevenue (metrics fs fe stock) * 100) \<and>
      netMargin (metrics fs fe stock) =
        Some (Metrics.netIncome (metrics fs fe stock) / totalRevenue (metrics fs fe stock) * 100) \<and>
      expenseRatio (metrics fs fe stock) =
        Some (totalExpenses (metrics fs fe stock) / totalRevenue (metrics fs fe stock) * 100)"
    by (simp add: metrics_def Let_def divide_number_def)
  have zero: "totalRevenue (metrics fs fe stock) = 0 \<longrightarrow>
      grossMargin (metrics fs fe stock) = Some 0 \<and>
      netMargin (metrics fs fe stock) = Some 0 \<and>
      expenseRatio (metrics fs fe stock) = Some 0"
    by (simp add: metrics_def Let_def)
  have empty: "grossMargin (metrics [] [] stock) = Some 0"
    "netMargin (metrics [] [] stock) = Some 0"
    "expenseRatio (metrics [] [] stock) = Some 0"
    by (simp_all add: metrics_def Let_def)
  have total: "grossMargin (metrics fs fe stock) \<noteq> None"
    "netMargin (metrics fs fe stock) \<noteq> None"
    "expenseRatio (metrics fs fe stock) \<noteq> None"
    by (simp_all add: metrics_def Let_def divide_number_def)
  show ?thesis using metrics_totals[of fs fe stock] pos zero empty total by (intro conjI)
qed

theorem margins_guarded_witness:
  "totalRevenue (metrics [morningSale, eveningSale, earlierSale] [rent] [soap]) > 0 \<and>
   grossMargin (metrics [morningSale, eveningSale, earlierSale] [rent] [soap]) = Some 35 \<and>
   netMargin (metrics [morningSale, eveningSale, earlierSale] [rent] [soap]) = Some 10 \<and>
   expenseRatio (metrics [morningSale, eveningSale, earlierSale] [rent] [soap]) = Some 25 \<and>
   totalRevenue (metrics [] [rent] [soap]) = 0 \<and>
   grossMargin (metrics [] [rent] [soap]) = Some 0 \<and>
   netMargin (metrics [] [rent] [soap]) = Some 0 \<and>
   expenseRatio (metrics [] [rent] [soap]) = Some 0"
proof -
  let ?fs = "[morningSale, eveningSale, earlierSale]"
  note t = margins_guarded [of ?fs "[rent]" "[soap]"]
  note z = margins_guarded [of "[]" "[rent]" "[soap]"]
  have r: "totalRevenue (metrics ?fs [rent] [soap]) = 20"
    using t by (simp add: morningSale_def eveningSale_def earlierSale_def)
  have g: "totalGrossProfit (metrics ?fs [rent] [soap]) = 7"
    using t by (simp add: morningSale_def eveningSale_def earlierSale_def)
  have x: "totalExpenses (metrics ?fs [rent] [soap]) = 5"
    using t by (simp add: rent_def)
  have n: "Metrics.netIncome (metrics ?fs [rent] [soap]) = 2"
    using t g x by simp
  have p: "totalRevenue (metrics ?fs [rent] [soap]) > 0" using r by simp
  have a: "grossMargin (metrics ?fs [rent] [soap]) = Some 35"
    "netMargin (metrics ?fs [rent] [soap]) = Some 10"
    "expenseRatio (metrics ?fs [rent] [soap]) = Some 25"
    using t p r g x n by simp_all
  have r0: "totalRevenue (metrics [] [rent] [soap]) = 0"
    using z by simp
  have b: "grossMargin (metrics [] [rent] [soap]) = Some 0"
    "netMargin (metrics [] [rent] [soap]) = Some 0"
    "expenseRatio (metrics [] [rent] [soap]) = Some 0"
    using z r0 by blast+
  show ?thesis using p a r0 b by (intro conjI)
qed

section \<open>The exported CSV\<close>

lemma splitOn_nonempty: "splitOn c xs \<noteq> []"
  by (induction xs) (auto split: list.splits)








































text \<open>
  With an expense whose date does not parse the comparator answers \<open>NaN\<close>, and the order
  is the engine's: one that leaves such a list as it is shows the older expense first.
\<close>

lemma unparsable_date_breaks_order:
  "filteredExpenses browser [] [] [] ''All'' [rent, undated, soapOrder] = [rent, undated, soapOrder] \<and>
   timeOf browser rent < timeOf browser soapOrder"
  by code_simp

end
